theory Spec2Isabelle
  imports Main
begin

section \<open>The interposer of \<open>scripts/vkcapture_exe_override.c\<close>\<close>

text \<open>
  The C file shadows \<open>readlink\<close> and \<open>readlinkat\<close>. Both wrappers look the original
  function up with \<open>dlsym(RTLD_NEXT, ...)\<close>, cache the pointer in a file-local static,
  and rewrite the answer for the path \<open>/proc/self/exe\<close> when the environment variable
  \<open>OBS_VKCAPTURE_EXE_NAME\<close> holds a non-empty string.

  Conventions of the embedding:
  \<^item> a byte is a \<^typ>\<open>char\<close>; a C string is the \<^typ>\<open>string\<close> of the bytes before its
    terminating NUL, a region of memory is the \<^typ>\<open>string\<close> of the bytes stored in it;
  \<^item> a \<open>char *\<close> that may be \<open>NULL\<close> is an \<open>option\<close>: \<open>None\<close> is the null pointer,
    \<open>Some m\<close> points at memory holding the bytes \<open>m\<close>;
  \<^item> \<open>size_t\<close> values are \<^typ>\<open>nat\<close> and \<open>ssize_t\<close>, \<open>int\<close> values are \<^typ>\<open>int\<close>; the
    two casts of the source, \<open>(int)dir_len\<close> and \<open>(ssize_t)copy_len\<close>, have their
    wrap-around written out;
  \<^item> the process is a record that is passed through every call: \<open>errno\<close>, the two
    static pointers, the environment, what the dynamic loader would answer, the bytes
    that happen to lie in the stack slot of \<open>real_path\<close>, the bytes that a failing
    \<open>snprintf\<close> would leave behind, and a log of the calls made to anything outside
    the two wrappers. The log is not in the C text; it is there so
    that "this call was made" and "no call was made" are statements about the model;
  \<^item> \<open>getenv\<close> and \<open>dlsym\<close> are taken to leave \<open>errno\<close> as it is.
\<close>

subsection \<open>Constants of the platform headers\<close>

text \<open>
  \<open>PATH_MAX\<close>, \<open>INT_MAX\<close>, \<open>EINVAL\<close>, \<open>ENOSYS\<close> and \<open>EOVERFLOW\<close> come from
  \<open><limits.h>\<close> and \<open><errno.h>\<close>, which are not part of the repository; the values
  are those of Linux, the platform that has \<open>/proc/self/exe\<close>.
\<close>

definition PATH_MAX :: nat where
  "PATH_MAX = 4096"

definition EINVAL :: int where
  "EINVAL = 22"

definition ENOSYS :: int where
  "ENOSYS = 38"

definition EOVERFLOW :: int where
  "EOVERFLOW = 75"

definition INT_MAX :: int where
  "INT_MAX = 2147483647"

definition NUL :: char where
  "NUL = CHR 0x00"

subsection \<open>The C library functions the file calls\<close>

text \<open>\<open>strlen\<close> counts the bytes before the first NUL of the memory it is given.\<close>

definition c_str :: "string \<Rightarrow> string" where
  "c_str m = takeWhile (\<lambda>c. c \<noteq> NUL) m"

definition strlen :: "string \<Rightarrow> nat" where
  "strlen m = length (c_str m)"

text \<open>
  \<open>strrchr(s, c)\<close> scans the string once and remembers the last position that holds
  \<open>c\<close>; the result is that offset from the start, or \<open>None\<close> for the null pointer.
\<close>

fun strrchr_scan :: "string \<Rightarrow> char \<Rightarrow> nat \<Rightarrow> nat option \<Rightarrow> nat option" where
  "strrchr_scan [] c i found = found"
| "strrchr_scan (x # xs) c i found =
     strrchr_scan xs c (Suc i) (if x = c then Some i else found)"

definition strrchr :: "string \<Rightarrow> char \<Rightarrow> nat option" where
  "strrchr s c = strrchr_scan s c 0 None"

text \<open>
  \<open>snprintf(out, size, ...)\<close> stores at most \<open>size - 1\<close> bytes of the formatted text and
  then a NUL. It fails when \<open>size\<close> or the length of the formatted text is greater
  than \<open>INT_MAX\<close>: it then sets \<open>errno\<close> to \<open>EOVERFLOW\<close> and returns \<open>-1\<close>, which the
  source does not look at. POSIX does not say which bytes \<open>out\<close> holds after a failure;
  the C libraries of Linux still store at most \<open>size - 1\<close> bytes and a NUL. What those
  bytes are is not known, so they are the parameter \<open>garbled\<close>. The result is the bytes
  stored from the start of \<open>out\<close>, and the value given to \<open>errno\<close>, if any.
\<close>

definition snprintf :: "string \<Rightarrow> nat \<Rightarrow> string \<Rightarrow> string \<times> int option" where
  "snprintf garbled sz fmt =
     (let failed = (INT_MAX < int sz \<or> INT_MAX < int (length fmt));
          stored = (if failed then garbled else fmt)
      in (if sz = 0 then [] else take (sz - 1) stored @ [NUL],
          if failed then Some EOVERFLOW else None))"

text \<open>
  The conversion \<open>%.*s\<close> takes its precision from an \<open>int\<close> argument: at most that many
  bytes of the string are printed, and a negative precision counts as none given.
\<close>

definition precision_s :: "int \<Rightarrow> string \<Rightarrow> string" where
  "precision_s p s = (if p < 0 then s else take (nat p) s)"

text \<open>\<open>memcpy(dst, src, n)\<close> overwrites the first \<open>n\<close> bytes at \<open>dst\<close>.\<close>

definition memcpy :: "string \<Rightarrow> string \<Rightarrow> nat \<Rightarrow> string" where
  "memcpy dst src n = take n src @ drop n dst"

text \<open>The casts \<open>(int)\<close> of a \<open>size_t\<close> (32 bits) and \<open>(ssize_t)\<close> of a \<open>size_t\<close> (64 bits).\<close>

definition int_of_size_t :: "nat \<Rightarrow> int" where
  "int_of_size_t n =
     (let m = int n mod 2 ^ 32 in if m < 2 ^ 31 then m else m - 2 ^ 32)"

definition ssize_t_of_size_t :: "nat \<Rightarrow> int" where
  "ssize_t_of_size_t n =
     (let m = int n mod 2 ^ 64 in if m < 2 ^ 63 then m else m - 2 ^ 64)"

subsection \<open>The process\<close>

text \<open>
  An original implementation is any function of the arguments and of \<open>errno\<close> that
  yields the return value, the bytes found at \<open>buf\<close> afterwards (they mean nothing when
  \<open>buf\<close> is null) and the new \<open>errno\<close>.
\<close>

type_synonym readlink_fn =
  "string option \<Rightarrow> string option \<Rightarrow> nat \<Rightarrow> int \<Rightarrow> int \<times> string \<times> int"

type_synonym readlinkat_fn =
  "int \<Rightarrow> string option \<Rightarrow> string option \<Rightarrow> nat \<Rightarrow> int \<Rightarrow> int \<times> string \<times> int"

datatype event =
    Dlsym string
  | Getenv string
  | RealReadlink "string option" "string option" nat
  | RealReadlinkat int "string option" "string option" nat
  | BuildOverride string string

record proc =
  errno :: int
  real_readlink_fn :: "readlink_fn option"
  real_readlinkat_fn :: "readlinkat_fn option"
  environ :: "string \<Rightarrow> string option"
  next_readlink :: "readlink_fn option"
  next_readlinkat :: "readlinkat_fn option"
  frame :: string
  garbled :: string
  trace :: "event list"

text \<open>
  \<open>next_readlink\<close> and \<open>next_readlinkat\<close> are the answers of
  \<open>dlsym(RTLD_NEXT, "readlink")\<close> and \<open>dlsym(RTLD_NEXT, "readlinkat")\<close>; \<open>frame\<close> is the
  indeterminate content of \<open>char real_path[PATH_MAX]\<close> on entry; \<open>garbled\<close> is what a
  failing \<open>snprintf\<close> leaves in \<open>out\<close>; \<open>trace\<close> is the log.
\<close>

definition log_event :: "event \<Rightarrow> proc \<Rightarrow> proc" where
  "log_event e s = s\<lparr>trace := trace s @ [e]\<rparr>"

definition call_real_readlink ::
  "string option \<Rightarrow> string option \<Rightarrow> nat \<Rightarrow> proc \<Rightarrow> int \<times> string option \<times> proc" where
  "call_real_readlink path buf bufsiz s =
     (let s1 = (if real_readlink_fn s = None
                then (log_event (Dlsym ''readlink'') s)\<lparr>real_readlink_fn := next_readlink s\<rparr>
                else s)
      in case real_readlink_fn s1 of
           None \<Rightarrow> (- 1, buf, s1\<lparr>errno := ENOSYS\<rparr>)
         | Some f \<Rightarrow>
             (case f path buf bufsiz (errno s1) of
                (r, m, e) \<Rightarrow>
                  (r, map_option (\<lambda>_. m) buf,
                   (log_event (RealReadlink path buf bufsiz) s1)\<lparr>errno := e\<rparr>)))"

definition call_real_readlinkat ::
  "int \<Rightarrow> string option \<Rightarrow> string option \<Rightarrow> nat \<Rightarrow> proc \<Rightarrow> int \<times> string option \<times> proc" where
  "call_real_readlinkat dirfd path buf bufsiz s =
     (let s1 = (if real_readlinkat_fn s = None
                then (log_event (Dlsym ''readlinkat'') s)\<lparr>real_readlinkat_fn := next_readlinkat s\<rparr>
                else s)
      in case real_readlinkat_fn s1 of
           None \<Rightarrow> (- 1, buf, s1\<lparr>errno := ENOSYS\<rparr>)
         | Some f \<Rightarrow>
             (case f dirfd path buf bufsiz (errno s1) of
                (r, m, e) \<Rightarrow>
                  (r, map_option (\<lambda>_. m) buf,
                   (log_event (RealReadlinkat dirfd path buf bufsiz) s1)\<lparr>errno := e\<rparr>)))"

subsection \<open>\<open>build_override\<close>\<close>

text \<open>
  \<open>format_out\<close> is the content of the local array \<open>char out[PATH_MAX]\<close> after the one
  \<open>snprintf\<close> that the three branches on \<open>strrchr(real_path, '/')\<close> select (source lines
  39 to 50), together with the \<open>errno\<close> value that \<open>snprintf\<close> sets, if any.
\<close>

definition format_out :: "string \<Rightarrow> string \<Rightarrow> string \<Rightarrow> string \<times> int option" where
  "format_out garbage real_path override =
     (case strrchr real_path (CHR ''/'') of
        Some dir_len \<Rightarrow>
          if dir_len = 0 then snprintf garbage PATH_MAX (CHR ''/'' # override)
          else snprintf garbage PATH_MAX
                 (precision_s (int_of_size_t dir_len) real_path @ CHR ''/'' # override)
      | None \<Rightarrow> snprintf garbage PATH_MAX override)"

text \<open>The synthesized path is the C string that \<open>out\<close> then holds.\<close>

definition synthesized :: "string \<Rightarrow> string \<Rightarrow> string \<Rightarrow> string" where
  "synthesized garbage real_path override = c_str (fst (format_out garbage real_path override))"

text \<open>
  Source lines 37 to 58: the result is the return value, the caller's buffer after the
  call, and the process, in which only \<open>errno\<close> can have changed.
\<close>

definition build_override ::
  "string \<Rightarrow> string \<Rightarrow> string option \<Rightarrow> nat \<Rightarrow> proc \<Rightarrow> int \<times> string option \<times> proc" where
  "build_override real_path override buf bufsiz s =
     (case format_out (garbled s) real_path override of
        (out, failure) \<Rightarrow>
          (let s1 = (case failure of None \<Rightarrow> s | Some code \<Rightarrow> s\<lparr>errno := code\<rparr>);
               out_len = strlen out;
               copy_len = (if out_len < bufsiz then out_len else bufsiz)
           in (ssize_t_of_size_t copy_len,
               (case buf of
                  None \<Rightarrow> None
                | Some dst \<Rightarrow>
                    if copy_len > 0 then Some (memcpy dst out copy_len) else Some dst),
               s1)))"

subsection \<open>The two wrappers\<close>

text \<open>
  A call either returns a value and leaves the caller's buffer in some state, or it
  stores the terminating NUL outside \<open>real_path\<close> (\<open>Overrun\<close>), which C leaves
  undefined; that happens only when the original returns more than the size it was
  given.
\<close>

datatype result = Return int "string option" | Overrun

text \<open>
  \<open>override_tail\<close> is the text that both wrappers share word for word after the inner
  call (source lines 74 to 79 and 96 to 101): return a negative \<open>n\<close> as it is, else
  store the NUL at \<open>real_path[n]\<close> and call \<open>build_override\<close>. The inner call was
  given a non-null \<open>real_path\<close>, so the \<open>None\<close> case of its memory is never taken.
\<close>

definition override_tail ::
  "string \<Rightarrow> string option \<Rightarrow> nat \<Rightarrow> int \<times> string option \<times> proc \<Rightarrow> result \<times> proc" where
  "override_tail override buf bufsiz inner =
     (case inner of
        (n, real_path, s1) \<Rightarrow>
          if n < 0 then (Return n buf, s1)
          else if nat n < PATH_MAX then
            (let real = c_str ((case real_path of None \<Rightarrow> [] | Some m \<Rightarrow> m)[nat n := NUL])
             in case build_override real override buf bufsiz
                       (log_event (BuildOverride real override) s1) of
                  (r, buf', s2) \<Rightarrow> (Return r buf', s2))
          else (Overrun, s1))"

definition readlink :: "string option \<Rightarrow> string option \<Rightarrow> nat \<Rightarrow> proc \<Rightarrow> result \<times> proc" where
  "readlink path buf bufsiz s =
     (case path of
        None \<Rightarrow> (Return (- 1) buf, s\<lparr>errno := EINVAL\<rparr>)
      | Some p \<Rightarrow>
          (let override = environ s ''OBS_VKCAPTURE_EXE_NAME'';
               s0 = log_event (Getenv ''OBS_VKCAPTURE_EXE_NAME'') s;
               delegate = (case call_real_readlink path buf bufsiz s0 of
                             (r, buf', s1) \<Rightarrow> (Return r buf', s1))
           in case override of
                None \<Rightarrow> delegate
              | Some ov \<Rightarrow>
                  if ov = [] \<or> p \<noteq> ''/proc/self/exe'' then delegate
                  else override_tail ov buf bufsiz
                         (call_real_readlink path (Some (frame s0)) (PATH_MAX - 1) s0)))"

definition readlinkat ::
  "int \<Rightarrow> string option \<Rightarrow> string option \<Rightarrow> nat \<Rightarrow> proc \<Rightarrow> result \<times> proc" where
  "readlinkat dirfd path buf bufsiz s =
     (case path of
        None \<Rightarrow> (Return (- 1) buf, s\<lparr>errno := EINVAL\<rparr>)
      | Some p \<Rightarrow>
          (let override = environ s ''OBS_VKCAPTURE_EXE_NAME'';
               s0 = log_event (Getenv ''OBS_VKCAPTURE_EXE_NAME'') s;
               delegate = (case call_real_readlinkat dirfd path buf bufsiz s0 of
                             (r, buf', s1) \<Rightarrow> (Return r buf', s1))
           in case override of
                None \<Rightarrow> delegate
              | Some ov \<Rightarrow>
                  if ov = [] \<or> p \<noteq> ''/proc/self/exe'' then delegate
                  else override_tail ov buf bufsiz
                         (call_real_readlinkat dirfd path (Some (frame s0)) (PATH_MAX - 1) s0)))"

subsection \<open>Sequences of calls\<close>

text \<open>
  A process makes any number of calls to the two wrappers, one after the other. A call
  that ends in \<open>Overrun\<close> has no defined continuation, so a run stops there.
\<close>

datatype call =
    Readlink "string option" "string option" nat
  | Readlinkat int "string option" "string option" nat

fun invoke :: "call \<Rightarrow> proc \<Rightarrow> result \<times> proc" where
  "invoke (Readlink path buf bufsiz) s = readlink path buf bufsiz s"
| "invoke (Readlinkat dirfd path buf bufsiz) s = readlinkat dirfd path buf bufsiz s"

fun run :: "call list \<Rightarrow> proc \<Rightarrow> proc" where
  "run [] s = s"
| "run (c # cs) s =
     (case invoke c s of
        (Overrun, s') \<Rightarrow> s'
      | (Return r b, s') \<Rightarrow> run cs s')"

text \<open>How often the log shows a lookup of a symbol, and the calls of \<open>build_override\<close> in it.\<close>

definition lookups :: "string \<Rightarrow> proc \<Rightarrow> nat" where
  "lookups name s = count_list (trace s) (Dlsym name)"

fun is_build_override :: "event \<Rightarrow> bool" where
  "is_build_override (BuildOverride real override) = True"
| "is_build_override e = False"

definition synth_calls :: "proc \<Rightarrow> event list" where
  "synth_calls s = filter is_build_override (trace s)"

subsection \<open>The synthesis in the words of the specification\<close>

text \<open>
  The specification describes the synthesized path by the directory portion of the real
  path, which is what stands before its last \<open>/\<close>: the result is the override alone
  when the real path has no \<open>/\<close>, \<open>/\<close> and the override when the last \<open>/\<close> is the
  first character (the directory portion is empty), and directory, \<open>/\<close>, override
  otherwise. This definition follows those words, not the C text.
\<close>

definition spec_directory :: "string \<Rightarrow> string" where
  "spec_directory R = butlast (rev (dropWhile (\<lambda>c. c \<noteq> CHR ''/'') (rev R)))"

definition spec_synthesized :: "string \<Rightarrow> string \<Rightarrow> string" where
  "spec_synthesized R ov =
     (if CHR ''/'' \<notin> set R then ov
      else if spec_directory R = [] then CHR ''/'' # ov
      else spec_directory R @ CHR ''/'' # ov)"

subsection \<open>An example process\<close>

text \<open>
  A small world to run the model in: the executable is \<open>/usr/bin/realprog\<close>, nothing
  else is a symbolic link, and the launcher has set the override to \<open>fakeprog\<close>. The
  example \<open>readlink\<close> stores at most \<open>bufsiz\<close> bytes of the target and no NUL, and
  fails with \<open>ENOENT\<close> (2) on any other path.
\<close>

definition example_readlink :: readlink_fn where
  "example_readlink path buf bufsiz e =
     (let mem = (case buf of None \<Rightarrow> [] | Some m \<Rightarrow> m)
      in if path = Some ''/proc/self/exe''
         then (int (min 17 bufsiz), memcpy mem ''/usr/bin/realprog'' (min 17 bufsiz), e)
         else (- 1, mem, 2))"

definition example_readlinkat :: readlinkat_fn where
  "example_readlinkat dirfd = example_readlink"

definition example_proc :: proc where
  "example_proc =
     \<lparr>errno = 0,
      real_readlink_fn = None,
      real_readlinkat_fn = None,
      environ = [''OBS_VKCAPTURE_EXE_NAME'' \<mapsto> ''fakeprog''],
      next_readlink = Some example_readlink,
      next_readlinkat = Some example_readlinkat,
      frame = replicate PATH_MAX (CHR ''?''),
      garbled = replicate PATH_MAX (CHR ''#''),
      trace = []\<rparr>"

text \<open>An original that refuses every path with \<open>EACCES\<close> (13) and writes nothing.\<close>

definition example_denied :: readlink_fn where
  "example_denied path buf bufsiz e = (- 1, (case buf of None \<Rightarrow> [] | Some m \<Rightarrow> m), 13)"

definition example_denied_at :: readlinkat_fn where
  "example_denied_at dirfd = example_denied"

section \<open>Facts about the library functions\<close>

lemma strrchr_scan_absent: "c \<notin> set s \<Longrightarrow> strrchr_scan s c i found = found"
  by (induction s arbitrary: i found) auto

lemma strrchr_scan_last:
  "c \<notin> set suf \<Longrightarrow> strrchr_scan (pre @ c # suf) c i found = Some (i + length pre)"
  by (induction pre arbitrary: i found) (auto simp: strrchr_scan_absent)

lemma strrchr_None: "c \<notin> set s \<Longrightarrow> strrchr s c = None"
  by (simp add: strrchr_def strrchr_scan_absent)

lemma strrchr_Some: "c \<notin> set suf \<Longrightarrow> strrchr (pre @ c # suf) c = Some (length pre)"
  by (simp add: strrchr_def strrchr_scan_last)

lemma spec_directory_split:
  "CHR ''/'' \<notin> set suf \<Longrightarrow> spec_directory (pre @ CHR ''/'' # suf) = pre"
  by (simp add: spec_directory_def dropWhile_append)

lemma c_str_terminated: "NUL \<notin> set xs \<Longrightarrow> c_str (xs @ [NUL]) = xs"
  by (induction xs) (auto simp: c_str_def)

lemma length_c_str_le: "length (c_str (xs @ [NUL])) \<le> length xs"
  by (induction xs) (simp_all add: c_str_def)

text \<open>The NUL that the wrappers store at \<open>real_path[n]\<close> ends the string there at the latest.\<close>

lemma length_c_str_update: "length (c_str (m[k := NUL])) \<le> k"
proof (induction m arbitrary: k)
  case Nil
  then show ?case by (simp add: c_str_def)
next
  case (Cons x xs)
  then show ?case by (cases k) (auto simp: c_str_def)
qed

lemma c_str_update: "NUL \<notin> set xs \<Longrightarrow> c_str ((xs @ y # ys)[length xs := NUL]) = xs"
  by (induction xs) (auto simp: c_str_def)

lemma snprintf_succeeds:
  assumes "int sz \<le> INT_MAX" and "int (length fmt) \<le> INT_MAX"
  shows "snprintf g sz fmt = (if sz = 0 then [] else take (sz - 1) fmt @ [NUL], None)"
  using assms by (simp add: snprintf_def Let_def)

lemma snprintf_fails:
  assumes "INT_MAX < int (length fmt)"
  shows "snd (snprintf g sz fmt) = Some EOVERFLOW"
  using assms by (simp add: snprintf_def Let_def)

lemma snprintf_stored:
  "0 < sz \<Longrightarrow> \<exists>stored. fst (snprintf g sz fmt) = take (sz - 1) stored @ [NUL]"
  by (auto simp: snprintf_def Let_def)

lemma length_snprintf: "length (fst (snprintf g sz fmt)) \<le> sz"
  by (auto simp: snprintf_def Let_def)

lemma length_c_str_snprintf: "length (c_str (fst (snprintf g sz fmt))) \<le> sz - 1"
proof (cases "sz = 0")
  case True
  then show ?thesis by (simp add: snprintf_def c_str_def Let_def)
next
  case False
  then obtain stored where st: "fst (snprintf g sz fmt) = take (sz - 1) stored @ [NUL]"
    using snprintf_stored [of sz g fmt] by auto
  have "length (c_str (take (sz - 1) stored @ [NUL])) \<le> length (take (sz - 1) stored)"
    by (rule length_c_str_le)
  also have "\<dots> \<le> sz - 1" by simp
  finally show ?thesis by (simp only: st)
qed

lemma c_str_snprintf:
  assumes "NUL \<notin> set fmt" and "int (length fmt) \<le> INT_MAX"
  shows "c_str (fst (snprintf g PATH_MAX fmt)) = take (PATH_MAX - 1) fmt"
proof -
  have "NUL \<notin> set (take (PATH_MAX - 1) fmt)"
    using assms(1) by (blast dest: in_set_takeD)
  then have "c_str (take (PATH_MAX - 1) fmt @ [NUL]) = take (PATH_MAX - 1) fmt"
    by (rule c_str_terminated)
  moreover have "int PATH_MAX \<le> INT_MAX" by (simp add: PATH_MAX_def INT_MAX_def)
  ultimately show ?thesis
    using assms(2) by (simp add: snprintf_succeeds PATH_MAX_def)
qed

lemma int_of_size_t_small:
  assumes "n < 2 ^ 31"
  shows "int_of_size_t n = int n"
proof -
  have lt: "int n < 2 ^ 31"
    using assms by (metis of_nat_less_iff of_nat_numeral of_nat_power)
  then have "int n < 2 ^ 32" by simp
  then have "int n mod 2 ^ 32 = int n" by (simp only: mod_pos_pos_trivial of_nat_0_le_iff)
  then show ?thesis using lt by (simp only: int_of_size_t_def Let_def if_True)
qed

lemma ssize_t_of_size_t_small:
  assumes "n < 2 ^ 63"
  shows "ssize_t_of_size_t n = int n"
proof -
  have lt: "int n < 2 ^ 63"
    using assms by (metis of_nat_less_iff of_nat_numeral of_nat_power)
  then have "int n < 2 ^ 64" by simp
  then have "int n mod 2 ^ 64 = int n" by (simp only: mod_pos_pos_trivial of_nat_0_le_iff)
  then show ?thesis using lt by (simp only: ssize_t_of_size_t_def Let_def if_True)
qed

lemma take_c_str: "n \<le> length (c_str m) \<Longrightarrow> take n m = take n (c_str m)"
proof -
  assume n: "n \<le> length (c_str m)"
  have "c_str m = take (length (c_str m)) m"
    unfolding c_str_def by (rule takeWhile_eq_take)
  then have "take n (c_str m) = take n (take (length (c_str m)) m)" by simp
  also have "\<dots> = take n m" using n by (simp add: min_absorb1)
  finally show ?thesis by simp
qed

section \<open>Facts about \<open>build_override\<close>\<close>

text \<open>
  Whatever branch is taken, \<open>out\<close> is filled by one \<open>snprintf\<close> of a text that contains the
  override and at most the real path and one \<open>/\<close> besides.
\<close>

lemma length_precision_s: "length (precision_s p s) \<le> length s"
  by (simp add: precision_s_def)

lemma format_out_cases:
  "\<exists>fmt. format_out g real_path override = snprintf g PATH_MAX fmt
         \<and> length override \<le> length fmt
         \<and> length fmt \<le> length real_path + 1 + length override"
proof (cases "strrchr real_path (CHR ''/'')")
  case None
  then show ?thesis by (auto simp: format_out_def)
next
  case (Some dir_len)
  show ?thesis
  proof (cases "dir_len = 0")
    case True
    with Some show ?thesis by (auto simp: format_out_def)
  next
    case False
    let ?fmt = "precision_s (int_of_size_t dir_len) real_path @ CHR ''/'' # override"
    have "format_out g real_path override = snprintf g PATH_MAX ?fmt"
      using Some False by (simp add: format_out_def)
    moreover have "length override \<le> length ?fmt" by simp
    moreover have "length ?fmt \<le> length real_path + 1 + length override"
      using length_precision_s [of "int_of_size_t dir_len" real_path] by simp
    ultimately show ?thesis by blast
  qed
qed

lemma length_synthesized: "length (synthesized g real_path override) \<le> PATH_MAX - 1"
proof -
  obtain fmt where "format_out g real_path override = snprintf g PATH_MAX fmt"
    using format_out_cases by blast
  then show ?thesis
    using length_c_str_snprintf [of g PATH_MAX fmt] by (simp add: synthesized_def)
qed

text \<open>When the one \<open>snprintf\<close> succeeds and when it fails.\<close>

lemma format_out_succeeds:
  assumes "int (length real_path) + 1 + int (length override) \<le> INT_MAX"
  shows "snd (format_out g real_path override) = None"
proof -
  obtain fmt where f: "format_out g real_path override = snprintf g PATH_MAX fmt"
    and le: "length fmt \<le> length real_path + 1 + length override"
    using format_out_cases by blast
  have "int (length fmt) \<le> INT_MAX" using le assms by linarith
  moreover have "int PATH_MAX \<le> INT_MAX" by (simp add: PATH_MAX_def INT_MAX_def)
  ultimately show ?thesis by (simp add: f snprintf_succeeds)
qed

lemma format_out_fails:
  assumes "INT_MAX < int (length override)"
  shows "snd (format_out g real_path override) = Some EOVERFLOW"
proof -
  obtain fmt where f: "format_out g real_path override = snprintf g PATH_MAX fmt"
    and le: "length override \<le> length fmt"
    using format_out_cases by blast
  have "INT_MAX < int (length fmt)" using le assms by linarith
  then show ?thesis by (simp add: f snprintf_fails)
qed

text \<open>
  The C text and the wording of the specification describe the same path, cut to the
  capacity of \<open>out\<close>, as long as \<open>snprintf\<close> can format it.
\<close>

lemma synthesized_refines:
  assumes "length R < PATH_MAX" and "NUL \<notin> set R" and "NUL \<notin> set ov"
    and "int (length (spec_synthesized R ov)) \<le> INT_MAX"
  shows "synthesized g R ov = take (PATH_MAX - 1) (spec_synthesized R ov)"
proof (cases "CHR ''/'' \<in> set R")
  case False
  then show ?thesis
    using assms
    by (simp add: synthesized_def format_out_def strrchr_None spec_synthesized_def c_str_snprintf)
next
  case True
  then obtain pre suf where R: "R = pre @ CHR ''/'' # suf" and suf: "CHR ''/'' \<notin> set suf"
    using split_list_last by fastforce
  have dir: "spec_directory R = pre" using R suf by (simp add: spec_directory_split)
  have sl: "strrchr R (CHR ''/'') = Some (length pre)" using R suf by (simp add: strrchr_Some)
  have "length pre < 2 ^ 31" using assms(1) R by (simp add: PATH_MAX_def)
  then have cast: "int_of_size_t (length pre) = int (length pre)" by (rule int_of_size_t_small)
  have nul: "CHR ''/'' \<noteq> NUL" by (simp add: NUL_def)
  show ?thesis
  proof (cases "pre = []")
    case True
    then show ?thesis
      using assms sl dir True nul R
      by (simp add: synthesized_def format_out_def spec_synthesized_def c_str_snprintf)
  next
    case False
    have "precision_s (int_of_size_t (length pre)) R = pre"
      using cast R by (simp add: precision_s_def)
    then show ?thesis
      using assms sl dir False nul R
      by (simp add: synthesized_def format_out_def spec_synthesized_def c_str_snprintf)
  qed
qed

text \<open>The whole of \<open>build_override\<close> in one equation.\<close>

lemma build_override_result:
  "build_override real_path override buf bufsiz s =
     (int (min (length (synthesized (garbled s) real_path override)) bufsiz),
      map_option (\<lambda>dst. take (min (length (synthesized (garbled s) real_path override)) bufsiz)
                           (synthesized (garbled s) real_path override)
                         @ drop (min (length (synthesized (garbled s) real_path override)) bufsiz)
                             dst) buf,
      case snd (format_out (garbled s) real_path override) of
        None \<Rightarrow> s
      | Some code \<Rightarrow> s\<lparr>errno := code\<rparr>)"
proof -
  obtain out failure where fo: "format_out (garbled s) real_path override = (out, failure)"
    by (cases "format_out (garbled s) real_path override")
  define syn where "syn = synthesized (garbled s) real_path override"
  define n where "n = min (length syn) bufsiz"
  have syn: "c_str out = syn" by (simp add: syn_def synthesized_def fo)
  have copy: "(if strlen out < bufsiz then strlen out else bufsiz) = n"
    by (simp add: strlen_def syn n_def min_def)
  have "n \<le> PATH_MAX - 1"
    using length_synthesized [of "garbled s" real_path override] by (simp add: n_def syn_def)
  then have "n < 2 ^ 63" by (simp add: PATH_MAX_def)
  then have cast: "ssize_t_of_size_t n = int n" by (rule ssize_t_of_size_t_small)
  have "n \<le> length (c_str out)" by (simp add: n_def syn)
  then have "take n out = take n syn" using take_c_str [of n out] by (simp add: syn)
  then have mem: "\<And>dst. memcpy dst out n = take n syn @ drop n dst"
    by (simp add: memcpy_def)
  have "build_override real_path override buf bufsiz s =
        (ssize_t_of_size_t n,
         (case buf of None \<Rightarrow> None
          | Some dst \<Rightarrow> if n > 0 then Some (memcpy dst out n) else Some dst),
         case failure of None \<Rightarrow> s | Some code \<Rightarrow> s\<lparr>errno := code\<rparr>)"
    using copy
    by (cases "strlen out < bufsiz"; cases buf) (simp_all add: build_override_def fo Let_def)
  also have "\<dots> = (int n, map_option (\<lambda>dst. take n syn @ drop n dst) buf,
                     case failure of None \<Rightarrow> s | Some code \<Rightarrow> s\<lparr>errno := code\<rparr>)"
    by (cases buf) (simp_all add: cast mem)
  finally show ?thesis by (simp add: n_def syn_def fo)
qed

section \<open>Facts about the resolver and the wrappers\<close>

lemma log_event_fields [simp]:
  "errno (log_event ev s) = errno s"
  "real_readlink_fn (log_event ev s) = real_readlink_fn s"
  "real_readlinkat_fn (log_event ev s) = real_readlinkat_fn s"
  "next_readlink (log_event ev s) = next_readlink s"
  "next_readlinkat (log_event ev s) = next_readlinkat s"
  "environ (log_event ev s) = environ s"
  "frame (log_event ev s) = frame s"
  "garbled (log_event ev s) = garbled s"
  "trace (log_event ev s) = trace s @ [ev]"
  by (simp_all add: log_event_def)

lemma call_real_readlink_cached:
  assumes "real_readlink_fn s = Some f" and "f path buf bufsiz (errno s) = (r, m, e)"
  shows "call_real_readlink path buf bufsiz s =
           (r, map_option (\<lambda>_. m) buf, (log_event (RealReadlink path buf bufsiz) s)\<lparr>errno := e\<rparr>)"
  using assms by (simp add: call_real_readlink_def)

lemma call_real_readlink_fresh:
  assumes "real_readlink_fn s = None" and "next_readlink s = Some f"
    and "f path buf bufsiz (errno s) = (r, m, e)"
  shows "call_real_readlink path buf bufsiz s =
           (r, map_option (\<lambda>_. m) buf,
            (log_event (RealReadlink path buf bufsiz)
               ((log_event (Dlsym ''readlink'') s)\<lparr>real_readlink_fn := Some f\<rparr>))\<lparr>errno := e\<rparr>)"
  using assms by (simp add: call_real_readlink_def log_event_def)

lemma call_real_readlink_missing:
  assumes "real_readlink_fn s = None" and "next_readlink s = None"
  shows "call_real_readlink path buf bufsiz s =
           (- 1, buf, (log_event (Dlsym ''readlink'') s)\<lparr>real_readlink_fn := None, errno := ENOSYS\<rparr>)"
  using assms by (simp add: call_real_readlink_def log_event_def)

lemma call_real_readlinkat_cached:
  assumes "real_readlinkat_fn s = Some f" and "f dirfd path buf bufsiz (errno s) = (r, m, e)"
  shows "call_real_readlinkat dirfd path buf bufsiz s =
           (r, map_option (\<lambda>_. m) buf,
            (log_event (RealReadlinkat dirfd path buf bufsiz) s)\<lparr>errno := e\<rparr>)"
  using assms by (simp add: call_real_readlinkat_def)

lemma call_real_readlinkat_fresh:
  assumes "real_readlinkat_fn s = None" and "next_readlinkat s = Some f"
    and "f dirfd path buf bufsiz (errno s) = (r, m, e)"
  shows "call_real_readlinkat dirfd path buf bufsiz s =
           (r, map_option (\<lambda>_. m) buf,
            (log_event (RealReadlinkat dirfd path buf bufsiz)
               ((log_event (Dlsym ''readlinkat'') s)\<lparr>real_readlinkat_fn := Some f\<rparr>))\<lparr>errno := e\<rparr>)"
  using assms by (simp add: call_real_readlinkat_def log_event_def)

lemma call_real_readlinkat_missing:
  assumes "real_readlinkat_fn s = None" and "next_readlinkat s = None"
  shows "call_real_readlinkat dirfd path buf bufsiz s =
           (- 1, buf,
            (log_event (Dlsym ''readlinkat'') s)\<lparr>real_readlinkat_fn := None, errno := ENOSYS\<rparr>)"
  using assms by (simp add: call_real_readlinkat_def log_event_def)

text \<open>What a call of the resolver does when the original is found, cached or not.\<close>

lemma call_real_readlink_resolved:
  assumes "real_readlink_fn s = Some f \<or> (real_readlink_fn s = None \<and> next_readlink s = Some f)"
    and "f path buf bufsiz (errno s) = (r, m, e)"
  shows "\<exists>s'. call_real_readlink path buf bufsiz s = (r, map_option (\<lambda>_. m) buf, s')
              \<and> errno s' = e \<and> real_readlink_fn s' = Some f \<and> garbled s' = garbled s
              \<and> last (trace s') = RealReadlink path buf bufsiz
              \<and> synth_calls s' = synth_calls s"
  using assms
  by (auto simp: call_real_readlink_cached call_real_readlink_fresh log_event_def synth_calls_def)

lemma call_real_readlinkat_resolved:
  assumes "real_readlinkat_fn s = Some f \<or> (real_readlinkat_fn s = None \<and> next_readlinkat s = Some f)"
    and "f dirfd path buf bufsiz (errno s) = (r, m, e)"
  shows "\<exists>s'. call_real_readlinkat dirfd path buf bufsiz s = (r, map_option (\<lambda>_. m) buf, s')
              \<and> errno s' = e \<and> real_readlinkat_fn s' = Some f \<and> garbled s' = garbled s
              \<and> last (trace s') = RealReadlinkat dirfd path buf bufsiz
              \<and> synth_calls s' = synth_calls s"
  using assms
  by (auto simp: call_real_readlinkat_cached call_real_readlinkat_fresh log_event_def synth_calls_def)

text \<open>The two paths through a wrapper whose path argument is not null.\<close>

lemma readlink_delegates:
  assumes "p \<noteq> ''/proc/self/exe'' \<or> environ s ''OBS_VKCAPTURE_EXE_NAME'' = None
           \<or> environ s ''OBS_VKCAPTURE_EXE_NAME'' = Some []"
  shows "readlink (Some p) buf bufsiz s =
           (case call_real_readlink (Some p) buf bufsiz
                   (log_event (Getenv ''OBS_VKCAPTURE_EXE_NAME'') s) of
              (r, buf', s1) \<Rightarrow> (Return r buf', s1))"
  using assms by (auto simp: readlink_def Let_def split: option.splits)

lemma readlinkat_delegates:
  assumes "p \<noteq> ''/proc/self/exe'' \<or> environ s ''OBS_VKCAPTURE_EXE_NAME'' = None
           \<or> environ s ''OBS_VKCAPTURE_EXE_NAME'' = Some []"
  shows "readlinkat dirfd (Some p) buf bufsiz s =
           (case call_real_readlinkat dirfd (Some p) buf bufsiz
                   (log_event (Getenv ''OBS_VKCAPTURE_EXE_NAME'') s) of
              (r, buf', s1) \<Rightarrow> (Return r buf', s1))"
  using assms by (auto simp: readlinkat_def Let_def split: option.splits)

lemma readlink_overrides:
  assumes "environ s ''OBS_VKCAPTURE_EXE_NAME'' = Some ov" and "ov \<noteq> []"
  shows "readlink (Some ''/proc/self/exe'') buf bufsiz s =
           override_tail ov buf bufsiz
             (call_real_readlink (Some ''/proc/self/exe'') (Some (frame s)) (PATH_MAX - 1)
                (log_event (Getenv ''OBS_VKCAPTURE_EXE_NAME'') s))"
  using assms by (simp add: readlink_def Let_def)

lemma readlinkat_overrides:
  assumes "environ s ''OBS_VKCAPTURE_EXE_NAME'' = Some ov" and "ov \<noteq> []"
  shows "readlinkat dirfd (Some ''/proc/self/exe'') buf bufsiz s =
           override_tail ov buf bufsiz
             (call_real_readlinkat dirfd (Some ''/proc/self/exe'') (Some (frame s)) (PATH_MAX - 1)
                (log_event (Getenv ''OBS_VKCAPTURE_EXE_NAME'') s))"
  using assms by (simp add: readlinkat_def Let_def)

lemma synth_calls_log_event:
  "synth_calls (log_event ev s) = synth_calls s @ (if is_build_override ev then [ev] else [])"
  by (simp add: synth_calls_def)

lemma synth_calls_errno [simp]: "synth_calls (s\<lparr>errno := e\<rparr>) = synth_calls s"
  by (simp add: synth_calls_def)

lemma override_tail_negative:
  "n < 0 \<Longrightarrow> override_tail ov buf bufsiz (n, real_path, s1) = (Return n buf, s1)"
  by (simp add: override_tail_def)

text \<open>
  After a successful inner call the wrapper returns what \<open>build_override\<close> computes from
  the string it finds in \<open>real_path\<close>; \<open>errno\<close> changes only when \<open>snprintf\<close> fails.
\<close>

lemma override_tail_result:
  assumes "0 \<le> n" and "n \<le> int (PATH_MAX - 1)"
  shows "\<exists>s'. override_tail ov buf bufsiz (n, Some m, s1) =
           (Return (int (min (length (synthesized (garbled s1) (c_str (m[nat n := NUL])) ov)) bufsiz))
              (map_option
                 (\<lambda>dst. take (min (length (synthesized (garbled s1) (c_str (m[nat n := NUL])) ov))
                                bufsiz)
                            (synthesized (garbled s1) (c_str (m[nat n := NUL])) ov)
                          @ drop (min (length (synthesized (garbled s1) (c_str (m[nat n := NUL])) ov))
                                    bufsiz) dst) buf), s')
         \<and> errno s' = (case snd (format_out (garbled s1) (c_str (m[nat n := NUL])) ov) of
                         None \<Rightarrow> errno s1 | Some code \<Rightarrow> code)
         \<and> synth_calls s' = synth_calls s1 @ [BuildOverride (c_str (m[nat n := NUL])) ov]"
proof -
  have "nat n < PATH_MAX" using assms by (simp add: PATH_MAX_def)
  then show ?thesis
    using assms
    by (auto simp: override_tail_def Let_def build_override_result synth_calls_log_event
        split: option.splits)
qed

lemma readlink_override_result:
  assumes env: "environ s ''OBS_VKCAPTURE_EXE_NAME'' = Some ov" and ne: "ov \<noteq> []"
    and f: "real_readlink_fn s = Some f \<or> (real_readlink_fn s = None \<and> next_readlink s = Some f)"
    and inner: "f (Some ''/proc/self/exe'') (Some (frame s)) (PATH_MAX - 1) (errno s) = (n, m, e)"
    and ok: "0 \<le> n" "n \<le> int (PATH_MAX - 1)"
  shows "\<exists>s'. readlink (Some ''/proc/self/exe'') buf bufsiz s =
           (Return (int (min (length (synthesized (garbled s) (c_str (m[nat n := NUL])) ov)) bufsiz))
              (map_option
                 (\<lambda>dst. take (min (length (synthesized (garbled s) (c_str (m[nat n := NUL])) ov))
                                bufsiz)
                            (synthesized (garbled s) (c_str (m[nat n := NUL])) ov)
                          @ drop (min (length (synthesized (garbled s) (c_str (m[nat n := NUL])) ov))
                                    bufsiz) dst) buf), s')
         \<and> errno s' = (case snd (format_out (garbled s) (c_str (m[nat n := NUL])) ov) of
                         None \<Rightarrow> e | Some code \<Rightarrow> code)
         \<and> synth_calls s' = synth_calls s @ [BuildOverride (c_str (m[nat n := NUL])) ov]"
proof -
  let ?s0 = "log_event (Getenv ''OBS_VKCAPTURE_EXE_NAME'') s"
  have "real_readlink_fn ?s0 = Some f \<or> (real_readlink_fn ?s0 = None \<and> next_readlink ?s0 = Some f)"
    using f by simp
  moreover have "f (Some ''/proc/self/exe'') (Some (frame s)) (PATH_MAX - 1) (errno ?s0) = (n, m, e)"
    using inner by simp
  ultimately obtain s1 where s1:
    "call_real_readlink (Some ''/proc/self/exe'') (Some (frame s)) (PATH_MAX - 1) ?s0
       = (n, map_option (\<lambda>_. m) (Some (frame s)), s1)"
    "errno s1 = e" "garbled s1 = garbled ?s0" "synth_calls s1 = synth_calls ?s0"
    using call_real_readlink_resolved by blast
  have g: "garbled s1 = garbled s" and sc: "synth_calls s1 = synth_calls s"
    using s1 by (simp_all add: synth_calls_log_event)
  obtain s' where t:
    "override_tail ov buf bufsiz (n, Some m, s1) =
       (Return (int (min (length (synthesized (garbled s1) (c_str (m[nat n := NUL])) ov)) bufsiz))
          (map_option
             (\<lambda>dst. take (min (length (synthesized (garbled s1) (c_str (m[nat n := NUL])) ov))
                            bufsiz)
                        (synthesized (garbled s1) (c_str (m[nat n := NUL])) ov)
                      @ drop (min (length (synthesized (garbled s1) (c_str (m[nat n := NUL])) ov))
                                bufsiz) dst) buf), s')"
    "errno s' = (case snd (format_out (garbled s1) (c_str (m[nat n := NUL])) ov) of
                   None \<Rightarrow> errno s1 | Some code \<Rightarrow> code)"
    "synth_calls s' = synth_calls s1 @ [BuildOverride (c_str (m[nat n := NUL])) ov]"
    using override_tail_result [OF ok, of ov buf bufsiz m s1] by blast
  have "errno s' = (case snd (format_out (garbled s) (c_str (m[nat n := NUL])) ov) of
                      None \<Rightarrow> e | Some code \<Rightarrow> code)"
    using t(2) s1(2) g by (simp split: option.splits)
  then show ?thesis
    using t(1,3) s1(1) by (simp add: readlink_overrides [OF env ne] g sc)
qed

lemma readlinkat_override_result:
  assumes env: "environ s ''OBS_VKCAPTURE_EXE_NAME'' = Some ov" and ne: "ov \<noteq> []"
    and f: "real_readlinkat_fn s = Some f
            \<or> (real_readlinkat_fn s = None \<and> next_readlinkat s = Some f)"
    and inner:
      "f dirfd (Some ''/proc/self/exe'') (Some (frame s)) (PATH_MAX - 1) (errno s) = (n, m, e)"
    and ok: "0 \<le> n" "n \<le> int (PATH_MAX - 1)"
  shows "\<exists>s'. readlinkat dirfd (Some ''/proc/self/exe'') buf bufsiz s =
           (Return (int (min (length (synthesized (garbled s) (c_str (m[nat n := NUL])) ov)) bufsiz))
              (map_option
                 (\<lambda>dst. take (min (length (synthesized (garbled s) (c_str (m[nat n := NUL])) ov))
                                bufsiz)
                            (synthesized (garbled s) (c_str (m[nat n := NUL])) ov)
                          @ drop (min (length (synthesized (garbled s) (c_str (m[nat n := NUL])) ov))
                                    bufsiz) dst) buf), s')
         \<and> errno s' = (case snd (format_out (garbled s) (c_str (m[nat n := NUL])) ov) of
                         None \<Rightarrow> e | Some code \<Rightarrow> code)
         \<and> synth_calls s' = synth_calls s @ [BuildOverride (c_str (m[nat n := NUL])) ov]"
proof -
  let ?s0 = "log_event (Getenv ''OBS_VKCAPTURE_EXE_NAME'') s"
  have "real_readlinkat_fn ?s0 = Some f
        \<or> (real_readlinkat_fn ?s0 = None \<and> next_readlinkat ?s0 = Some f)"
    using f by simp
  moreover have
    "f dirfd (Some ''/proc/self/exe'') (Some (frame s)) (PATH_MAX - 1) (errno ?s0) = (n, m, e)"
    using inner by simp
  ultimately obtain s1 where s1:
    "call_real_readlinkat dirfd (Some ''/proc/self/exe'') (Some (frame s)) (PATH_MAX - 1) ?s0
       = (n, map_option (\<lambda>_. m) (Some (frame s)), s1)"
    "errno s1 = e" "garbled s1 = garbled ?s0" "synth_calls s1 = synth_calls ?s0"
    using call_real_readlinkat_resolved by blast
  have g: "garbled s1 = garbled s" and sc: "synth_calls s1 = synth_calls s"
    using s1 by (simp_all add: synth_calls_log_event)
  obtain s' where t:
    "override_tail ov buf bufsiz (n, Some m, s1) =
       (Return (int (min (length (synthesized (garbled s1) (c_str (m[nat n := NUL])) ov)) bufsiz))
          (map_option
             (\<lambda>dst. take (min (length (synthesized (garbled s1) (c_str (m[nat n := NUL])) ov))
                            bufsiz)
                        (synthesized (garbled s1) (c_str (m[nat n := NUL])) ov)
                      @ drop (min (length (synthesized (garbled s1) (c_str (m[nat n := NUL])) ov))
                                bufsiz) dst) buf), s')"
    "errno s' = (case snd (format_out (garbled s1) (c_str (m[nat n := NUL])) ov) of
                   None \<Rightarrow> errno s1 | Some code \<Rightarrow> code)"
    "synth_calls s' = synth_calls s1 @ [BuildOverride (c_str (m[nat n := NUL])) ov]"
    using override_tail_result [OF ok, of ov buf bufsiz m s1] by blast
  have "errno s' = (case snd (format_out (garbled s) (c_str (m[nat n := NUL])) ov) of
                      None \<Rightarrow> e | Some code \<Rightarrow> code)"
    using t(2) s1(2) g by (simp split: option.splits)
  then show ?thesis
    using t(1,3) s1(1) by (simp add: readlinkat_overrides [OF env ne] g sc)
qed

text \<open>
  The real path that reaches \<open>build_override\<close> is shorter than \<open>PATH_MAX\<close>, so an
  override of at most \<open>INT_MAX - PATH_MAX\<close> bytes can always be formatted.
\<close>

lemma format_out_in_wrapper_succeeds:
  assumes "0 \<le> n" and "n \<le> int (PATH_MAX - 1)"
    and "int (length ov) \<le> INT_MAX - int PATH_MAX"
  shows "snd (format_out g (c_str (m[nat n := NUL])) ov) = None"
proof -
  have "length (c_str (m[nat n := NUL])) \<le> nat n" by (rule length_c_str_update)
  then have "int (length (c_str (m[nat n := NUL]))) + 1 \<le> int PATH_MAX"
    using assms(1,2) by (simp add: PATH_MAX_def)
  then have "int (length (c_str (m[nat n := NUL]))) + 1 + int (length ov) \<le> INT_MAX"
    using assms(3) by linarith
  then show ?thesis by (rule format_out_succeeds)
qed

section \<open>Facts about the lookup count\<close>

lemma lookups_log_event:
  "lookups name (log_event ev s) = lookups name s + (if ev = Dlsym name then 1 else 0)"
  by (simp add: lookups_def)

lemma lookups_errno [simp]: "lookups name (s\<lparr>errno := e\<rparr>) = lookups name s"
  by (simp add: lookups_def)

lemma lookups_cache [simp]:
  "lookups name (s\<lparr>real_readlink_fn := f\<rparr>) = lookups name s"
  "lookups name (s\<lparr>real_readlinkat_fn := g\<rparr>) = lookups name s"
  by (simp_all add: lookups_def)

text \<open>One call of a resolver, seen from both static pointers.\<close>

lemma call_real_readlink_step:
  assumes "call_real_readlink path buf bufsiz s = (r, b, s')"
  shows "next_readlink s' = next_readlink s \<and> next_readlinkat s' = next_readlinkat s
       \<and> real_readlinkat_fn s' = real_readlinkat_fn s
       \<and> lookups ''readlinkat'' s' = lookups ''readlinkat'' s
       \<and> (real_readlink_fn s \<noteq> None \<longrightarrow>
            real_readlink_fn s' = real_readlink_fn s
            \<and> lookups ''readlink'' s' = lookups ''readlink'' s)
       \<and> (real_readlink_fn s = None \<longrightarrow>
            real_readlink_fn s' = next_readlink s
            \<and> lookups ''readlink'' s' = lookups ''readlink'' s + 1)"
  using assms
  by (auto simp: call_real_readlink_def Let_def lookups_log_event
      split: option.splits prod.splits if_splits)

lemma call_real_readlinkat_step:
  assumes "call_real_readlinkat dirfd path buf bufsiz s = (r, b, s')"
  shows "next_readlink s' = next_readlink s \<and> next_readlinkat s' = next_readlinkat s
       \<and> real_readlink_fn s' = real_readlink_fn s
       \<and> lookups ''readlink'' s' = lookups ''readlink'' s
       \<and> (real_readlinkat_fn s \<noteq> None \<longrightarrow>
            real_readlinkat_fn s' = real_readlinkat_fn s
            \<and> lookups ''readlinkat'' s' = lookups ''readlinkat'' s)
       \<and> (real_readlinkat_fn s = None \<longrightarrow>
            real_readlinkat_fn s' = next_readlinkat s
            \<and> lookups ''readlinkat'' s' = lookups ''readlinkat'' s + 1)"
  using assms
  by (auto simp: call_real_readlinkat_def Let_def lookups_log_event
      split: option.splits prod.splits if_splits)

lemma override_tail_step:
  assumes "override_tail ov buf bufsiz (n, rp, s1) = (res, s')"
  shows "next_readlink s' = next_readlink s1 \<and> next_readlinkat s' = next_readlinkat s1
       \<and> real_readlink_fn s' = real_readlink_fn s1 \<and> real_readlinkat_fn s' = real_readlinkat_fn s1
       \<and> lookups name s' = lookups name s1"
  using assms
  by (auto simp: override_tail_def Let_def build_override_result lookups_log_event
      split: prod.splits if_splits option.splits)

lemma readlink_step:
  assumes "readlink path buf bufsiz s = (res, s')"
  shows "next_readlink s' = next_readlink s \<and> next_readlinkat s' = next_readlinkat s
       \<and> real_readlinkat_fn s' = real_readlinkat_fn s
       \<and> lookups ''readlinkat'' s' = lookups ''readlinkat'' s
       \<and> (real_readlink_fn s \<noteq> None \<longrightarrow>
            real_readlink_fn s' = real_readlink_fn s
            \<and> lookups ''readlink'' s' = lookups ''readlink'' s)
       \<and> (real_readlink_fn s = None \<longrightarrow>
            (real_readlink_fn s' = None \<and> lookups ''readlink'' s' = lookups ''readlink'' s)
            \<or> (real_readlink_fn s' = next_readlink s
                \<and> lookups ''readlink'' s' = lookups ''readlink'' s + 1))"
proof (cases path)
  case None
  then show ?thesis using assms by (auto simp: readlink_def)
next
  case (Some p)
  let ?s0 = "log_event (Getenv ''OBS_VKCAPTURE_EXE_NAME'') s"
  have s0: "lookups ''readlink'' ?s0 = lookups ''readlink'' s"
    "lookups ''readlinkat'' ?s0 = lookups ''readlinkat'' s"
    by (simp_all add: lookups_log_event)
  consider (delegate) r b where "call_real_readlink path buf bufsiz ?s0 = (r, b, s')"
    | (override) ov n rp s1 where
        "call_real_readlink path (Some (frame ?s0)) (PATH_MAX - 1) ?s0 = (n, rp, s1)"
        "override_tail ov buf bufsiz (n, rp, s1) = (res, s')"
    using assms Some
    by (auto simp: readlink_def Let_def split: option.splits if_splits prod.splits)
      (metis prod_cases3)
  then show ?thesis
  proof cases
    case delegate
    show ?thesis using call_real_readlink_step [OF delegate] s0 by auto
  next
    case override
    show ?thesis
      using call_real_readlink_step [OF override(1)]
        override_tail_step [OF override(2), of "''readlink''"]
        override_tail_step [OF override(2), of "''readlinkat''"] s0
      by auto
  qed
qed

lemma readlinkat_step:
  assumes "readlinkat dirfd path buf bufsiz s = (res, s')"
  shows "next_readlink s' = next_readlink s \<and> next_readlinkat s' = next_readlinkat s
       \<and> real_readlink_fn s' = real_readlink_fn s
       \<and> lookups ''readlink'' s' = lookups ''readlink'' s
       \<and> (real_readlinkat_fn s \<noteq> None \<longrightarrow>
            real_readlinkat_fn s' = real_readlinkat_fn s
            \<and> lookups ''readlinkat'' s' = lookups ''readlinkat'' s)
       \<and> (real_readlinkat_fn s = None \<longrightarrow>
            (real_readlinkat_fn s' = None \<and> lookups ''readlinkat'' s' = lookups ''readlinkat'' s)
            \<or> (real_readlinkat_fn s' = next_readlinkat s
                \<and> lookups ''readlinkat'' s' = lookups ''readlinkat'' s + 1))"
proof (cases path)
  case None
  then show ?thesis using assms by (auto simp: readlinkat_def)
next
  case (Some p)
  let ?s0 = "log_event (Getenv ''OBS_VKCAPTURE_EXE_NAME'') s"
  have s0: "lookups ''readlink'' ?s0 = lookups ''readlink'' s"
    "lookups ''readlinkat'' ?s0 = lookups ''readlinkat'' s"
    by (simp_all add: lookups_log_event)
  consider (delegate) r b where "call_real_readlinkat dirfd path buf bufsiz ?s0 = (r, b, s')"
    | (override) ov n rp s1 where
        "call_real_readlinkat dirfd path (Some (frame ?s0)) (PATH_MAX - 1) ?s0 = (n, rp, s1)"
        "override_tail ov buf bufsiz (n, rp, s1) = (res, s')"
    using assms Some
    by (auto simp: readlinkat_def Let_def split: option.splits if_splits prod.splits)
      (metis prod_cases3)
  then show ?thesis
  proof cases
    case delegate
    show ?thesis using call_real_readlinkat_step [OF delegate] s0 by auto
  next
    case override
    show ?thesis
      using call_real_readlinkat_step [OF override(1)]
        override_tail_step [OF override(2), of "''readlink''"]
        override_tail_step [OF override(2), of "''readlinkat''"] s0
      by auto
  qed
qed

lemma invoke_step:
  assumes "invoke c s = (res, s')"
  shows "next_readlink s' = next_readlink s \<and> next_readlinkat s' = next_readlinkat s
       \<and> (real_readlink_fn s \<noteq> None \<longrightarrow>
            real_readlink_fn s' = real_readlink_fn s
            \<and> lookups ''readlink'' s' = lookups ''readlink'' s)
       \<and> (real_readlink_fn s = None \<longrightarrow>
            (real_readlink_fn s' = None \<and> lookups ''readlink'' s' = lookups ''readlink'' s)
            \<or> (real_readlink_fn s' = next_readlink s
                \<and> lookups ''readlink'' s' = lookups ''readlink'' s + 1))
       \<and> (real_readlinkat_fn s \<noteq> None \<longrightarrow>
            real_readlinkat_fn s' = real_readlinkat_fn s
            \<and> lookups ''readlinkat'' s' = lookups ''readlinkat'' s)
       \<and> (real_readlinkat_fn s = None \<longrightarrow>
            (real_readlinkat_fn s' = None \<and> lookups ''readlinkat'' s' = lookups ''readlinkat'' s)
            \<or> (real_readlinkat_fn s' = next_readlinkat s
                \<and> lookups ''readlinkat'' s' = lookups ''readlinkat'' s + 1))"
proof (cases c)
  case (Readlink path buf bufsiz)
  then have "readlink path buf bufsiz s = (res, s')" using assms by simp
  from readlink_step [OF this] show ?thesis by auto
next
  case (Readlinkat dirfd path buf bufsiz)
  then have "readlinkat dirfd path buf bufsiz s = (res, s')" using assms by simp
  from readlinkat_step [OF this] show ?thesis by auto
qed

text \<open>
  The invariant of a run in which \<open>dlsym\<close> finds the symbol: while the pointer is null
  the symbol has been looked up \<open>k\<close> times, afterwards at most \<open>k + 1\<close> times.
\<close>

lemma run_lookups_readlink:
  assumes "next_readlink s \<noteq> None"
    and "if real_readlink_fn s = None then lookups ''readlink'' s = k
         else lookups ''readlink'' s \<le> k + 1"
  shows "lookups ''readlink'' (run cs s) \<le> k + 1"
  using assms
proof (induction cs arbitrary: s)
  case Nil
  then show ?case by (simp split: if_splits)
next
  case (Cons c cs)
  obtain res s' where st: "invoke c s = (res, s')" by (cases "invoke c s")
  note step = invoke_step [OF st]
  have nx: "next_readlink s' \<noteq> None" using step Cons.prems(1) by simp
  have inv: "if real_readlink_fn s' = None then lookups ''readlink'' s' = k
             else lookups ''readlink'' s' \<le> k + 1"
    using step Cons.prems by (auto split: if_splits)
  show ?case
  proof (cases res)
    case (Return r b)
    then show ?thesis using st Cons.IH [OF nx inv] by simp
  next
    case Overrun
    then show ?thesis using st inv by (simp split: if_splits)
  qed
qed

lemma run_lookups_readlinkat:
  assumes "next_readlinkat s \<noteq> None"
    and "if real_readlinkat_fn s = None then lookups ''readlinkat'' s = k
         else lookups ''readlinkat'' s \<le> k + 1"
  shows "lookups ''readlinkat'' (run cs s) \<le> k + 1"
  using assms
proof (induction cs arbitrary: s)
  case Nil
  then show ?case by (simp split: if_splits)
next
  case (Cons c cs)
  obtain res s' where st: "invoke c s = (res, s')" by (cases "invoke c s")
  note step = invoke_step [OF st]
  have nx: "next_readlinkat s' \<noteq> None" using step Cons.prems(1) by simp
  have inv: "if real_readlinkat_fn s' = None then lookups ''readlinkat'' s' = k
             else lookups ''readlinkat'' s' \<le> k + 1"
    using step Cons.prems by (auto split: if_splits)
  show ?case
  proof (cases res)
    case (Return r b)
    then show ?thesis using st Cons.IH [OF nx inv] by simp
  next
    case Overrun
    then show ?thesis using st inv by (simp split: if_splits)
  qed
qed

section \<open>The wrappers, one at a time\<close>

text \<open>Pass-through.\<close>

lemma readlink_transparent:
  assumes bypass: "p \<noteq> ''/proc/self/exe'' \<or> environ s ''OBS_VKCAPTURE_EXE_NAME'' = None
                   \<or> environ s ''OBS_VKCAPTURE_EXE_NAME'' = Some []"
    and f: "real_readlink_fn s = Some f \<or> (real_readlink_fn s = None \<and> next_readlink s = Some f)"
    and direct: "f (Some p) buf bufsiz (errno s) = (r, m, e)"
  shows "\<exists>s'. readlink (Some p) buf bufsiz s = (Return r (map_option (\<lambda>_. m) buf), s')
              \<and> errno s' = e \<and> last (trace s') = RealReadlink (Some p) buf bufsiz"
proof -
  let ?s0 = "log_event (Getenv ''OBS_VKCAPTURE_EXE_NAME'') s"
  have "real_readlink_fn ?s0 = Some f \<or> (real_readlink_fn ?s0 = None \<and> next_readlink ?s0 = Some f)"
    using f by simp
  moreover have "f (Some p) buf bufsiz (errno ?s0) = (r, m, e)" using direct by simp
  ultimately obtain s' where
    "call_real_readlink (Some p) buf bufsiz ?s0 = (r, map_option (\<lambda>_. m) buf, s')"
    "errno s' = e" "last (trace s') = RealReadlink (Some p) buf bufsiz"
    using call_real_readlink_resolved by blast
  then show ?thesis by (simp add: readlink_delegates [OF bypass])
qed

lemma readlinkat_transparent:
  assumes bypass: "p \<noteq> ''/proc/self/exe'' \<or> environ s ''OBS_VKCAPTURE_EXE_NAME'' = None
                   \<or> environ s ''OBS_VKCAPTURE_EXE_NAME'' = Some []"
    and g: "real_readlinkat_fn s = Some g
            \<or> (real_readlinkat_fn s = None \<and> next_readlinkat s = Some g)"
    and direct: "g dirfd (Some p) buf bufsiz (errno s) = (r, m, e)"
  shows "\<exists>s'. readlinkat dirfd (Some p) buf bufsiz s = (Return r (map_option (\<lambda>_. m) buf), s')
              \<and> errno s' = e \<and> last (trace s') = RealReadlinkat dirfd (Some p) buf bufsiz"
proof -
  let ?s0 = "log_event (Getenv ''OBS_VKCAPTURE_EXE_NAME'') s"
  have "real_readlinkat_fn ?s0 = Some g
        \<or> (real_readlinkat_fn ?s0 = None \<and> next_readlinkat ?s0 = Some g)"
    using g by simp
  moreover have "g dirfd (Some p) buf bufsiz (errno ?s0) = (r, m, e)" using direct by simp
  ultimately obtain s' where
    "call_real_readlinkat dirfd (Some p) buf bufsiz ?s0 = (r, map_option (\<lambda>_. m) buf, s')"
    "errno s' = e" "last (trace s') = RealReadlinkat dirfd (Some p) buf bufsiz"
    using call_real_readlinkat_resolved by blast
  then show ?thesis by (simp add: readlinkat_delegates [OF bypass])
qed

text \<open>The inner call fails.\<close>

lemma readlink_inner_failure:
  assumes env: "environ s ''OBS_VKCAPTURE_EXE_NAME'' = Some ov" and ne: "ov \<noteq> []"
    and f: "real_readlink_fn s = Some f \<or> (real_readlink_fn s = None \<and> next_readlink s = Some f)"
    and inner: "f (Some ''/proc/self/exe'') (Some (frame s)) (PATH_MAX - 1) (errno s) = (n, m, e)"
    and neg: "n < 0"
  shows "\<exists>s'. readlink (Some ''/proc/self/exe'') buf bufsiz s = (Return n buf, s')
              \<and> errno s' = e \<and> synth_calls s' = synth_calls s"
proof -
  let ?s0 = "log_event (Getenv ''OBS_VKCAPTURE_EXE_NAME'') s"
  have "real_readlink_fn ?s0 = Some f \<or> (real_readlink_fn ?s0 = None \<and> next_readlink ?s0 = Some f)"
    using f by simp
  moreover have "f (Some ''/proc/self/exe'') (Some (frame s)) (PATH_MAX - 1) (errno ?s0) = (n, m, e)"
    using inner by simp
  ultimately obtain s' where
    "call_real_readlink (Some ''/proc/self/exe'') (Some (frame s)) (PATH_MAX - 1) ?s0
       = (n, map_option (\<lambda>_. m) (Some (frame s)), s')"
    "errno s' = e" "synth_calls s' = synth_calls ?s0"
    using call_real_readlink_resolved by blast
  then show ?thesis
    using neg by (simp add: readlink_overrides [OF env ne] override_tail_negative
        synth_calls_log_event)
qed

lemma readlinkat_inner_failure:
  assumes env: "environ s ''OBS_VKCAPTURE_EXE_NAME'' = Some ov" and ne: "ov \<noteq> []"
    and g: "real_readlinkat_fn s = Some g
            \<or> (real_readlinkat_fn s = None \<and> next_readlinkat s = Some g)"
    and inner:
      "g dirfd (Some ''/proc/self/exe'') (Some (frame s)) (PATH_MAX - 1) (errno s) = (n, m, e)"
    and neg: "n < 0"
  shows "\<exists>s'. readlinkat dirfd (Some ''/proc/self/exe'') buf bufsiz s = (Return n buf, s')
              \<and> errno s' = e \<and> synth_calls s' = synth_calls s"
proof -
  let ?s0 = "log_event (Getenv ''OBS_VKCAPTURE_EXE_NAME'') s"
  have "real_readlinkat_fn ?s0 = Some g
        \<or> (real_readlinkat_fn ?s0 = None \<and> next_readlinkat ?s0 = Some g)"
    using g by simp
  moreover have
    "g dirfd (Some ''/proc/self/exe'') (Some (frame s)) (PATH_MAX - 1) (errno ?s0) = (n, m, e)"
    using inner by simp
  ultimately obtain s' where
    "call_real_readlinkat dirfd (Some ''/proc/self/exe'') (Some (frame s)) (PATH_MAX - 1) ?s0
       = (n, map_option (\<lambda>_. m) (Some (frame s)), s')"
    "errno s' = e" "synth_calls s' = synth_calls ?s0"
    using call_real_readlinkat_resolved by blast
  then show ?thesis
    using neg by (simp add: readlinkat_overrides [OF env ne] override_tail_negative
        synth_calls_log_event)
qed

text \<open>The symbol is not found.\<close>

lemma readlink_missing:
  assumes "real_readlink_fn s = None" and "next_readlink s = None"
  shows "\<exists>s'. readlink (Some p) buf bufsiz s = (Return (- 1) buf, s')
              \<and> errno s' = ENOSYS
              \<and> trace s' = trace s @ [Getenv ''OBS_VKCAPTURE_EXE_NAME'', Dlsym ''readlink'']"
  using assms
  by (auto simp: readlink_def Let_def call_real_readlink_missing override_tail_negative
      split: option.splits)

lemma readlinkat_missing:
  assumes "real_readlinkat_fn s = None" and "next_readlinkat s = None"
  shows "\<exists>s'. readlinkat dirfd (Some p) buf bufsiz s = (Return (- 1) buf, s')
              \<and> errno s' = ENOSYS
              \<and> trace s' = trace s @ [Getenv ''OBS_VKCAPTURE_EXE_NAME'', Dlsym ''readlinkat'']"
  using assms
  by (auto simp: readlinkat_def Let_def call_real_readlinkat_missing override_tail_negative
      split: option.splits)

text \<open>The inner call succeeds: the return value, and \<open>errno\<close> with and without a failing \<open>snprintf\<close>.\<close>

lemma readlink_override_bounds:
  assumes env: "environ s ''OBS_VKCAPTURE_EXE_NAME'' = Some ov" and ne: "ov \<noteq> []"
    and f: "real_readlink_fn s = Some f \<or> (real_readlink_fn s = None \<and> next_readlink s = Some f)"
    and inner: "f (Some ''/proc/self/exe'') (Some (frame s)) (PATH_MAX - 1) (errno s) = (n, m, e)"
    and ok: "0 \<le> n" "n \<le> int (PATH_MAX - 1)"
  shows "\<exists>r b s'. readlink (Some ''/proc/self/exe'') buf bufsiz s = (Return r b, s')
              \<and> 0 \<le> r \<and> r \<le> int bufsiz
              \<and> (int (length ov) \<le> INT_MAX - int PATH_MAX \<longrightarrow> errno s' = e)
              \<and> (INT_MAX < int (length ov) \<longrightarrow> errno s' = EOVERFLOW)"
proof -
  obtain r b s' where res: "readlink (Some ''/proc/self/exe'') buf bufsiz s = (Return r b, s')"
    and r: "r = int (min (length (synthesized (garbled s) (c_str (m[nat n := NUL])) ov)) bufsiz)"
    and e: "errno s' = (case snd (format_out (garbled s) (c_str (m[nat n := NUL])) ov) of
                          None \<Rightarrow> e | Some code \<Rightarrow> code)"
    using readlink_override_result [OF env ne f inner ok, of buf bufsiz] by blast
  have "0 \<le> r" "r \<le> int bufsiz" using r by simp_all
  moreover have "int (length ov) \<le> INT_MAX - int PATH_MAX \<longrightarrow> errno s' = e"
    using e format_out_in_wrapper_succeeds [OF ok, of ov "garbled s" m] by simp
  moreover have "INT_MAX < int (length ov) \<longrightarrow> errno s' = EOVERFLOW"
    using e format_out_fails [of ov "garbled s" "c_str (m[nat n := NUL])"] by simp
  ultimately show ?thesis using res by blast
qed

lemma readlinkat_override_bounds:
  assumes env: "environ s ''OBS_VKCAPTURE_EXE_NAME'' = Some ov" and ne: "ov \<noteq> []"
    and g: "real_readlinkat_fn s = Some g
            \<or> (real_readlinkat_fn s = None \<and> next_readlinkat s = Some g)"
    and inner:
      "g dirfd (Some ''/proc/self/exe'') (Some (frame s)) (PATH_MAX - 1) (errno s) = (n, m, e)"
    and ok: "0 \<le> n" "n \<le> int (PATH_MAX - 1)"
  shows "\<exists>r b s'. readlinkat dirfd (Some ''/proc/self/exe'') buf bufsiz s = (Return r b, s')
              \<and> 0 \<le> r \<and> r \<le> int bufsiz
              \<and> (int (length ov) \<le> INT_MAX - int PATH_MAX \<longrightarrow> errno s' = e)
              \<and> (INT_MAX < int (length ov) \<longrightarrow> errno s' = EOVERFLOW)"
proof -
  obtain r b s' where res:
      "readlinkat dirfd (Some ''/proc/self/exe'') buf bufsiz s = (Return r b, s')"
    and r: "r = int (min (length (synthesized (garbled s) (c_str (m[nat n := NUL])) ov)) bufsiz)"
    and e: "errno s' = (case snd (format_out (garbled s) (c_str (m[nat n := NUL])) ov) of
                          None \<Rightarrow> e | Some code \<Rightarrow> code)"
    using readlinkat_override_result [OF env ne g inner ok, of buf bufsiz] by blast
  have "0 \<le> r" "r \<le> int bufsiz" using r by simp_all
  moreover have "int (length ov) \<le> INT_MAX - int PATH_MAX \<longrightarrow> errno s' = e"
    using e format_out_in_wrapper_succeeds [OF ok, of ov "garbled s" m] by simp
  moreover have "INT_MAX < int (length ov) \<longrightarrow> errno s' = EOVERFLOW"
    using e format_out_fails [of ov "garbled s" "c_str (m[nat n := NUL])"] by simp
  ultimately show ?thesis using res by blast
qed

section \<open>Facts about the example process\<close>

lemma example_inner_call:
  "example_readlink (Some ''/proc/self/exe'') (Some (replicate PATH_MAX (CHR ''?''))) (PATH_MAX - 1) e
     = (17, ''/usr/bin/realprog'' @ CHR ''?'' # replicate 4078 (CHR ''?''), e)"
proof -
  have "replicate 4079 (CHR ''?'') = CHR ''?'' # replicate 4078 (CHR ''?'')"
    using replicate_Suc [of 4078 "CHR ''?''"] by simp
  then show ?thesis by (simp add: example_readlink_def memcpy_def PATH_MAX_def)
qed

lemma example_real_path:
  "c_str ((''/usr/bin/realprog'' @ CHR ''?'' # replicate 4078 (CHR ''?''))[nat 17 := NUL])
     = ''/usr/bin/realprog''"
proof -
  have "NUL \<notin> set ''/usr/bin/realprog''" by (simp add: NUL_def)
  from c_str_update [OF this, of "CHR ''?''" "replicate 4078 (CHR ''?'')"]
  show ?thesis by simp
qed

lemma example_synthesized: "synthesized g ''/usr/bin/realprog'' ''fakeprog'' = ''/usr/bin/fakeprog''"
  by (simp add: synthesized_def format_out_def strrchr_def snprintf_def precision_s_def
      int_of_size_t_def c_str_def NUL_def PATH_MAX_def INT_MAX_def Let_def)

section \<open>The claims\<close>

subsection \<open>C1: pass-through\<close>

text \<open>
  C1. Let the path \<open>p\<close> be different from \<open>/proc/self/exe\<close>, or let
  \<open>OBS_VKCAPTURE_EXE_NAME\<close> be unset or empty. Then each wrapper hands its own
  arguments to the resolved original (the cached pointer, or what \<open>dlsym\<close> finds at
  this call): the last outside call in the log is that one, and the return value, the
  bytes in the caller's buffer and \<open>errno\<close> are exactly what the original yields when
  it is called directly with these arguments. Here \<open>p\<close> is a path, so the pointer is
  not null (C6 treats the null pointer), and the original has been located (C8 treats
  the other case). Each wrapper is taken by itself: nothing is asked of the other one.
\<close>

theorem wrappers_transparent:
  assumes bypass: "p \<noteq> ''/proc/self/exe'' \<or> environ s ''OBS_VKCAPTURE_EXE_NAME'' = None
                   \<or> environ s ''OBS_VKCAPTURE_EXE_NAME'' = Some []"
  shows "((real_readlink_fn s = Some f \<or> (real_readlink_fn s = None \<and> next_readlink s = Some f))
          \<and> f (Some p) buf bufsiz (errno s) = (r, m, e)
          \<longrightarrow> (\<exists>s'. readlink (Some p) buf bufsiz s = (Return r (map_option (\<lambda>_. m) buf), s')
                 \<and> errno s' = e \<and> last (trace s') = RealReadlink (Some p) buf bufsiz))
       \<and> ((real_readlinkat_fn s = Some g
            \<or> (real_readlinkat_fn s = None \<and> next_readlinkat s = Some g))
          \<and> g dirfd (Some p) buf bufsiz (errno s) = (r', m', e')
          \<longrightarrow> (\<exists>s'. readlinkat dirfd (Some p) buf bufsiz s
                      = (Return r' (map_option (\<lambda>_. m') buf), s')
                 \<and> errno s' = e' \<and> last (trace s') = RealReadlinkat dirfd (Some p) buf bufsiz))"
  using readlink_transparent [OF bypass] readlinkat_transparent [OF bypass] by blast

theorem wrappers_transparent_witness:
  "environ (example_proc\<lparr>environ := Map.empty\<rparr>) ''OBS_VKCAPTURE_EXE_NAME'' = None
   \<and> (\<exists>s'. readlink (Some ''/proc/self/exe'') (Some ''....................'') 20
                (example_proc\<lparr>environ := Map.empty\<rparr>)
              = (Return 17 (Some ''/usr/bin/realprog...''), s')
            \<and> errno s' = 0
            \<and> last (trace s')
                = RealReadlink (Some ''/proc/self/exe'') (Some ''....................'') 20)
   \<and> (\<exists>s'. readlinkat 3 (Some ''/proc/self/exe'') (Some ''....................'') 20
                (example_proc\<lparr>environ := Map.empty\<rparr>)
              = (Return 17 (Some ''/usr/bin/realprog...''), s')
            \<and> errno s' = 0
            \<and> last (trace s')
                = RealReadlinkat 3 (Some ''/proc/self/exe'') (Some ''....................'') 20)"
  using wrappers_transparent
    [where p = "''/proc/self/exe''" and s = "example_proc\<lparr>environ := Map.empty\<rparr>"
       and f = example_readlink and g = example_readlinkat
       and buf = "Some ''....................''" and bufsiz = 20 and dirfd = 3
       and r = 17 and m = "''/usr/bin/realprog...''" and e = 0
       and r' = 17 and m' = "''/usr/bin/realprog...''" and e' = 0]
  by (simp add: example_proc_def example_readlink_def example_readlinkat_def memcpy_def)

subsection \<open>C2: the synthesized path\<close>

text \<open>
  C2, as amended. Take a real path \<open>R\<close> that fits \<open>real_path\<close> and an override \<open>ov\<close>
  (both C strings, so without NUL), and the path the specification describes: the
  directory of \<open>R\<close>, \<open>/\<close> and \<open>ov\<close> when the last \<open>/\<close> of \<open>R\<close> is not its first
  character, \<open>/\<close> and \<open>ov\<close> when it is, \<open>ov\<close> alone when \<open>R\<close> has no \<open>/\<close>. When that
  path has at most \<open>INT_MAX\<close> bytes, so that \<open>snprintf\<close> can format it, the synthesized
  path is its first \<open>PATH_MAX - 1\<close> bytes, whatever a failing \<open>snprintf\<close> would have
  left. It is that path itself whenever that path is shorter than \<open>PATH_MAX\<close>; so
  \<open>/usr/bin/realprog\<close> and \<open>fakeprog\<close> give the 17 bytes \<open>/usr/bin/fakeprog\<close>.
\<close>

theorem synthesized_is_truncated_join:
  assumes "length R < PATH_MAX" and "NUL \<notin> set R" and "NUL \<notin> set ov"
    and "int (length (spec_synthesized R ov)) \<le> INT_MAX"
  shows "synthesized g R ov = take (PATH_MAX - 1) (spec_synthesized R ov)
         \<and> (length (spec_synthesized R ov) < PATH_MAX
              \<longrightarrow> synthesized g R ov = spec_synthesized R ov)"
  using synthesized_refines [OF assms] by simp

theorem synthesized_is_truncated_join_witness:
  "length ''/usr/bin/realprog'' < PATH_MAX
   \<and> NUL \<notin> set ''/usr/bin/realprog'' \<and> NUL \<notin> set ''fakeprog''
   \<and> int (length (spec_synthesized ''/usr/bin/realprog'' ''fakeprog'')) \<le> INT_MAX
   \<and> length (spec_synthesized ''/usr/bin/realprog'' ''fakeprog'') < PATH_MAX
   \<and> synthesized (garbled example_proc) ''/usr/bin/realprog'' ''fakeprog'' = ''/usr/bin/fakeprog''
   \<and> length (synthesized (garbled example_proc) ''/usr/bin/realprog'' ''fakeprog'') = 17"
  using synthesized_is_truncated_join
    [of "''/usr/bin/realprog''" "''fakeprog''" "garbled example_proc"]
  by (simp add: PATH_MAX_def INT_MAX_def NUL_def spec_synthesized_def spec_directory_def)

text \<open>
  The claim as stated, without the bound of \<open>out\<close>, fails: an override of 5000 bytes
  does not come out whole, since \<open>out\<close> holds \<open>PATH_MAX - 1 = 4095\<close> bytes and the NUL.
\<close>

theorem long_override_counterexample:
  "synthesized (garbled example_proc) ''/usr/bin/realprog'' (replicate 5000 (CHR ''a''))
     \<noteq> ''/usr/bin'' @ ''/'' @ replicate 5000 (CHR ''a'')"
proof
  assume "synthesized (garbled example_proc) ''/usr/bin/realprog'' (replicate 5000 (CHR ''a''))
          = ''/usr/bin'' @ ''/'' @ replicate 5000 (CHR ''a'')"
  then have
    "length (synthesized (garbled example_proc) ''/usr/bin/realprog'' (replicate 5000 (CHR ''a'')))
       = 5009"
    by simp
  moreover have
    "length (synthesized (garbled example_proc) ''/usr/bin/realprog'' (replicate 5000 (CHR ''a'')))
       \<le> 4095"
    using length_synthesized
      [of "garbled example_proc" "''/usr/bin/realprog''" "replicate 5000 (CHR ''a'')"]
    by (simp add: PATH_MAX_def)
  ultimately show False by simp
qed

subsection \<open>C3: the copy into the caller's buffer\<close>

text \<open>
  C3. On the override path (the variable holds a non-empty string \<open>ov\<close>, the path is
  \<open>/proc/self/exe\<close>), let the original, called on \<open>real_path\<close> with capacity
  \<open>PATH_MAX - 1\<close>, succeed with \<open>n\<close> bytes and leave the memory \<open>m\<close>. The synthesized
  result \<open>syn\<close> is the C string that \<open>build_override\<close> has in \<open>out\<close> for the real path
  found in \<open>m\<close> up to the NUL stored at offset \<open>n\<close>. With a destination \<open>dst\<close>, each
  wrapper copies the first \<open>k = min (length syn) bufsiz\<close> bytes of \<open>syn\<close> to the start
  of \<open>dst\<close> and returns \<open>k\<close>. The bytes of \<open>dst\<close> from offset \<open>k\<close> on are as they were,
  so no NUL is added; and \<open>k\<close> is \<open>bufsiz\<close>, never more, when \<open>bufsiz\<close> is smaller than
  the length of \<open>syn\<close>. (The null destination is C4.)
\<close>

theorem override_copies_min:
  assumes env: "environ s ''OBS_VKCAPTURE_EXE_NAME'' = Some ov" and ne: "ov \<noteq> []"
  shows "((real_readlink_fn s = Some f \<or> (real_readlink_fn s = None \<and> next_readlink s = Some f))
          \<and> f (Some ''/proc/self/exe'') (Some (frame s)) (PATH_MAX - 1) (errno s) = (n, m, e)
          \<and> 0 \<le> n \<and> n \<le> int (PATH_MAX - 1)
          \<longrightarrow> (let syn = synthesized (garbled s) (c_str (m[nat n := NUL])) ov;
                    k = min (length syn) bufsiz
                in fst (readlink (Some ''/proc/self/exe'') (Some dst) bufsiz s)
                     = Return (int k) (Some (take k syn @ drop k dst))
                   \<and> k \<le> bufsiz \<and> (bufsiz < length syn \<longrightarrow> k = bufsiz)))
       \<and> ((real_readlinkat_fn s = Some g
            \<or> (real_readlinkat_fn s = None \<and> next_readlinkat s = Some g))
          \<and> g dirfd (Some ''/proc/self/exe'') (Some (frame s)) (PATH_MAX - 1) (errno s)
              = (n', m', e')
          \<and> 0 \<le> n' \<and> n' \<le> int (PATH_MAX - 1)
          \<longrightarrow> (let syn = synthesized (garbled s) (c_str (m'[nat n' := NUL])) ov;
                    k = min (length syn) bufsiz
                in fst (readlinkat dirfd (Some ''/proc/self/exe'') (Some dst) bufsiz s)
                     = Return (int k) (Some (take k syn @ drop k dst))
                   \<and> k \<le> bufsiz \<and> (bufsiz < length syn \<longrightarrow> k = bufsiz)))"
proof (intro conjI impI)
  assume h: "(real_readlink_fn s = Some f \<or> (real_readlink_fn s = None \<and> next_readlink s = Some f))
          \<and> f (Some ''/proc/self/exe'') (Some (frame s)) (PATH_MAX - 1) (errno s) = (n, m, e)
          \<and> 0 \<le> n \<and> n \<le> int (PATH_MAX - 1)"
  from h readlink_override_result [OF env ne, of f n m e "Some dst" bufsiz]
  show "let syn = synthesized (garbled s) (c_str (m[nat n := NUL])) ov;
            k = min (length syn) bufsiz
        in fst (readlink (Some ''/proc/self/exe'') (Some dst) bufsiz s)
             = Return (int k) (Some (take k syn @ drop k dst))
           \<and> k \<le> bufsiz \<and> (bufsiz < length syn \<longrightarrow> k = bufsiz)"
    by (auto simp: Let_def)
next
  assume h: "(real_readlinkat_fn s = Some g
            \<or> (real_readlinkat_fn s = None \<and> next_readlinkat s = Some g))
          \<and> g dirfd (Some ''/proc/self/exe'') (Some (frame s)) (PATH_MAX - 1) (errno s)
              = (n', m', e')
          \<and> 0 \<le> n' \<and> n' \<le> int (PATH_MAX - 1)"
  from h readlinkat_override_result [OF env ne, of g dirfd n' m' e' "Some dst" bufsiz]
  show "let syn = synthesized (garbled s) (c_str (m'[nat n' := NUL])) ov;
            k = min (length syn) bufsiz
        in fst (readlinkat dirfd (Some ''/proc/self/exe'') (Some dst) bufsiz s)
             = Return (int k) (Some (take k syn @ drop k dst))
           \<and> k \<le> bufsiz \<and> (bufsiz < length syn \<longrightarrow> k = bufsiz)"
    by (auto simp: Let_def)
qed

theorem override_copies_min_witness:
  "fst (readlink (Some ''/proc/self/exe'') (Some ''................'') 5 example_proc)
     = Return 5 (Some ''/usr/...........'')
   \<and> fst (readlinkat 3 (Some ''/proc/self/exe'') (Some ''................'') 5 example_proc)
     = Return 5 (Some ''/usr/...........'')"
  using override_copies_min
    [where s = example_proc and ov = "''fakeprog''"
       and f = example_readlink and g = example_readlinkat and dirfd = 3
       and n = 17 and m = "''/usr/bin/realprog'' @ CHR ''?'' # replicate 4078 (CHR ''?'')"
       and e = 0
       and n' = 17 and m' = "''/usr/bin/realprog'' @ CHR ''?'' # replicate 4078 (CHR ''?'')"
       and e' = 0 and dst = "''................''" and bufsiz = 5]
    example_inner_call [of 0] example_real_path
  by (simp add: example_proc_def example_readlinkat_def example_synthesized PATH_MAX_def Let_def)

subsection \<open>C4: the null destination\<close>




subsection \<open>C5: one lookup per symbol\<close>

text \<open>
  C5, as amended. Start a process with the static pointer of a symbol null, in which
  \<open>dlsym\<close> finds that symbol. Then over every sequence \<open>cs\<close> of wrapper calls the
  symbol is looked up at most once. And in any state \<open>t\<close>, a pointer that is not null
  is left as it is by every further call \<open>c\<close>, with no further lookup of its symbol.
  Each symbol is taken by itself.
\<close>

theorem lookup_once_when_found:
  "(real_readlink_fn s = None \<and> next_readlink s \<noteq> None
      \<longrightarrow> lookups ''readlink'' (run cs s) \<le> lookups ''readlink'' s + 1)
   \<and> (real_readlinkat_fn s = None \<and> next_readlinkat s \<noteq> None
      \<longrightarrow> lookups ''readlinkat'' (run cs s) \<le> lookups ''readlinkat'' s + 1)
   \<and> (real_readlink_fn t \<noteq> None \<longrightarrow>
        real_readlink_fn (snd (invoke c t)) = real_readlink_fn t
        \<and> lookups ''readlink'' (snd (invoke c t)) = lookups ''readlink'' t)
   \<and> (real_readlinkat_fn t \<noteq> None \<longrightarrow>
        real_readlinkat_fn (snd (invoke c t)) = real_readlinkat_fn t
        \<and> lookups ''readlinkat'' (snd (invoke c t)) = lookups ''readlinkat'' t)"
proof -
  have "real_readlink_fn s = None \<and> next_readlink s \<noteq> None
          \<longrightarrow> lookups ''readlink'' (run cs s) \<le> lookups ''readlink'' s + 1"
  proof
    assume h: "real_readlink_fn s = None \<and> next_readlink s \<noteq> None"
    then show "lookups ''readlink'' (run cs s) \<le> lookups ''readlink'' s + 1"
      by (intro run_lookups_readlink) simp_all
  qed
  moreover have "real_readlinkat_fn s = None \<and> next_readlinkat s \<noteq> None
          \<longrightarrow> lookups ''readlinkat'' (run cs s) \<le> lookups ''readlinkat'' s + 1"
  proof
    assume h: "real_readlinkat_fn s = None \<and> next_readlinkat s \<noteq> None"
    then show "lookups ''readlinkat'' (run cs s) \<le> lookups ''readlinkat'' s + 1"
      by (intro run_lookups_readlinkat) simp_all
  qed
  moreover obtain res t' where "invoke c t = (res, t')" by (cases "invoke c t")
  note invoke_step [OF this] this
  ultimately show ?thesis by simp
qed

theorem lookup_once_when_found_witness:
  "lookups ''readlink''
     (run [Readlink (Some ''/etc/hostname'') None 0, Readlink (Some ''/proc/self/exe'') None 0,
           Readlinkat 3 (Some ''/etc/hostname'') None 0] example_proc) \<le> 1
   \<and> lookups ''readlinkat''
     (run [Readlink (Some ''/etc/hostname'') None 0, Readlink (Some ''/proc/self/exe'') None 0,
           Readlinkat 3 (Some ''/etc/hostname'') None 0] example_proc) \<le> 1
   \<and> real_readlink_fn
        (snd (invoke (Readlink (Some ''/etc/hostname'') None 0)
               (example_proc\<lparr>real_readlink_fn := Some example_readlink,
                              real_readlinkat_fn := Some example_readlinkat\<rparr>)))
       = Some example_readlink
   \<and> lookups ''readlink''
        (snd (invoke (Readlink (Some ''/etc/hostname'') None 0)
               (example_proc\<lparr>real_readlink_fn := Some example_readlink,
                              real_readlinkat_fn := Some example_readlinkat\<rparr>))) = 0"
  using lookup_once_when_found
    [where s = example_proc
       and cs = "[Readlink (Some ''/etc/hostname'') None 0,
                  Readlink (Some ''/proc/self/exe'') None 0,
                  Readlinkat 3 (Some ''/etc/hostname'') None 0]"
       and t = "example_proc\<lparr>real_readlink_fn := Some example_readlink,
                              real_readlinkat_fn := Some example_readlinkat\<rparr>"
       and c = "Readlink (Some ''/etc/hostname'') None 0"]
  by (simp add: example_proc_def lookups_def)

text \<open>
  The claim as stated, at most one lookup per symbol in every process, fails where
  \<open>dlsym\<close> does not find \<open>readlink\<close>: the pointer stays null and the second call looks
  the symbol up again.
\<close>

theorem repeated_lookup_counterexample:
  "lookups ''readlink''
     (run [Readlink (Some ''/etc/hostname'') None 0, Readlink (Some ''/etc/hostname'') None 0]
        (example_proc\<lparr>next_readlink := None\<rparr>)) = 2"
  by (simp add: readlink_def call_real_readlink_def log_event_def lookups_def example_proc_def
      Let_def)

subsection \<open>C6: the null path\<close>

text \<open>
  C6. A call of either wrapper with a null path returns \<open>-1\<close> with \<open>errno\<close> set to
  \<open>EINVAL\<close>. Nothing else of the process changes: the log of outside calls is as it
  was, so neither \<open>getenv\<close>, nor \<open>dlsym\<close>, nor an original implementation, nor
  \<open>build_override\<close> ran, and the caller's buffer is untouched.
\<close>

theorem null_path_einval:
  "readlink None buf bufsiz s = (Return (- 1) buf, s\<lparr>errno := EINVAL\<rparr>)
   \<and> readlinkat dirfd None buf bufsiz s = (Return (- 1) buf, s\<lparr>errno := EINVAL\<rparr>)
   \<and> trace (snd (readlink None buf bufsiz s)) = trace s
   \<and> trace (snd (readlinkat dirfd None buf bufsiz s)) = trace s"
  by (simp add: readlink_def readlinkat_def)

theorem null_path_einval_witness:
  "readlink None (Some ''....'') 4 example_proc
     = (Return (- 1) (Some ''....''), example_proc\<lparr>errno := EINVAL\<rparr>)
   \<and> readlinkat 3 None (Some ''....'') 4 example_proc
     = (Return (- 1) (Some ''....''), example_proc\<lparr>errno := EINVAL\<rparr>)
   \<and> trace (snd (readlink None (Some ''....'') 4 example_proc)) = []
   \<and> trace (snd (readlinkat 3 None (Some ''....'') 4 example_proc)) = []"
  using null_path_einval [of "Some ''....''" 4 example_proc 3]
  by (simp add: example_proc_def)

subsection \<open>C7: failure of the inner call\<close>

text \<open>
  C7. On the override path (the variable holds a non-empty string and the path is
  \<open>/proc/self/exe\<close>), when the original, called on \<open>real_path\<close> with capacity
  \<open>PATH_MAX - 1\<close>, returns a negative \<open>n\<close> and leaves \<open>errno\<close> at \<open>e\<close>, the wrapper
  returns that \<open>n\<close> with \<open>errno = e\<close>, the caller's buffer is as it was, and the log
  shows no new call of \<open>build_override\<close>. Each wrapper is taken by itself.
\<close>

theorem inner_failure_propagates:
  assumes env: "environ s ''OBS_VKCAPTURE_EXE_NAME'' = Some ov" and ne: "ov \<noteq> []"
  shows "((real_readlink_fn s = Some f \<or> (real_readlink_fn s = None \<and> next_readlink s = Some f))
          \<and> f (Some ''/proc/self/exe'') (Some (frame s)) (PATH_MAX - 1) (errno s) = (n, m, e)
          \<and> n < 0
          \<longrightarrow> (\<exists>s'. readlink (Some ''/proc/self/exe'') buf bufsiz s = (Return n buf, s')
                 \<and> errno s' = e \<and> synth_calls s' = synth_calls s))
       \<and> ((real_readlinkat_fn s = Some g
            \<or> (real_readlinkat_fn s = None \<and> next_readlinkat s = Some g))
          \<and> g dirfd (Some ''/proc/self/exe'') (Some (frame s)) (PATH_MAX - 1) (errno s)
              = (n', m', e')
          \<and> n' < 0
          \<longrightarrow> (\<exists>s'. readlinkat dirfd (Some ''/proc/self/exe'') buf bufsiz s = (Return n' buf, s')
                 \<and> errno s' = e' \<and> synth_calls s' = synth_calls s))"
  using readlink_inner_failure [OF env ne] readlinkat_inner_failure [OF env ne] by blast

theorem inner_failure_propagates_witness:
  "(\<exists>s'. readlink (Some ''/proc/self/exe'') (Some ''....'') 4
              (example_proc\<lparr>next_readlink := Some example_denied,
                             next_readlinkat := Some example_denied_at\<rparr>)
            = (Return (- 1) (Some ''....''), s')
          \<and> errno s' = 13 \<and> synth_calls s' = [])
   \<and> (\<exists>s'. readlinkat 3 (Some ''/proc/self/exe'') (Some ''....'') 4
              (example_proc\<lparr>next_readlink := Some example_denied,
                             next_readlinkat := Some example_denied_at\<rparr>)
            = (Return (- 1) (Some ''....''), s')
          \<and> errno s' = 13 \<and> synth_calls s' = [])"
  using inner_failure_propagates
    [where s = "example_proc\<lparr>next_readlink := Some example_denied,
                              next_readlinkat := Some example_denied_at\<rparr>"
       and ov = "''fakeprog''" and f = example_denied and g = example_denied_at
       and n = "- 1" and m = "replicate PATH_MAX (CHR ''?'')" and e = 13
       and n' = "- 1" and m' = "replicate PATH_MAX (CHR ''?'')" and e' = 13
       and dirfd = 3 and buf = "Some ''....''" and bufsiz = 4]
  by (simp add: example_proc_def example_denied_def example_denied_at_def synth_calls_def)

subsection \<open>C8: the symbol cannot be found\<close>

text \<open>
  C8. When the static pointer is null and \<open>dlsym\<close> answers null, a call of the wrapper
  (with a path, on either branch) returns \<open>-1\<close> with \<open>errno = ENOSYS\<close>. It returns:
  it is not an \<open>Overrun\<close>; and the only outside calls are \<open>getenv\<close> and the one
  \<open>dlsym\<close>, so nothing is called through the null pointer and the wrapper does not
  call itself. The caller's buffer is as it was. Each wrapper is taken by itself.
\<close>

theorem missing_symbol_enosys:
  "(real_readlink_fn s = None \<and> next_readlink s = None
      \<longrightarrow> (\<exists>s'. readlink (Some p) buf bufsiz s = (Return (- 1) buf, s')
             \<and> errno s' = ENOSYS
             \<and> trace s' = trace s @ [Getenv ''OBS_VKCAPTURE_EXE_NAME'', Dlsym ''readlink'']))
   \<and> (real_readlinkat_fn s = None \<and> next_readlinkat s = None
      \<longrightarrow> (\<exists>s'. readlinkat dirfd (Some p) buf bufsiz s = (Return (- 1) buf, s')
             \<and> errno s' = ENOSYS
             \<and> trace s' = trace s @ [Getenv ''OBS_VKCAPTURE_EXE_NAME'', Dlsym ''readlinkat'']))"
  using readlink_missing [of s p buf bufsiz] readlinkat_missing [of s dirfd p buf bufsiz]
  by blast

theorem missing_symbol_enosys_witness:
  "(\<exists>s'. readlink (Some ''/proc/self/exe'') (Some ''....'') 4
              (example_proc\<lparr>next_readlink := None, next_readlinkat := None\<rparr>)
            = (Return (- 1) (Some ''....''), s')
          \<and> errno s' = ENOSYS
          \<and> trace s' = [Getenv ''OBS_VKCAPTURE_EXE_NAME'', Dlsym ''readlink''])
   \<and> (\<exists>s'. readlinkat 3 (Some ''/etc/hostname'') (Some ''....'') 4
              (example_proc\<lparr>next_readlink := None, next_readlinkat := None\<rparr>)
            = (Return (- 1) (Some ''....''), s')
          \<and> errno s' = ENOSYS
          \<and> trace s' = [Getenv ''OBS_VKCAPTURE_EXE_NAME'', Dlsym ''readlinkat''])"
proof -
  let ?s = "example_proc\<lparr>next_readlink := None, next_readlinkat := None\<rparr>"
  have h: "real_readlink_fn ?s = None \<and> next_readlink ?s = None"
    "real_readlinkat_fn ?s = None \<and> next_readlinkat ?s = None" "trace ?s = []"
    by (simp_all add: example_proc_def)
  have a: "\<exists>s'. readlink (Some ''/proc/self/exe'') (Some ''....'') 4 ?s
                  = (Return (- 1) (Some ''....''), s')
               \<and> errno s' = ENOSYS
               \<and> trace s' = trace ?s @ [Getenv ''OBS_VKCAPTURE_EXE_NAME'', Dlsym ''readlink'']"
    using missing_symbol_enosys [of ?s "''/proc/self/exe''" "Some ''....''" 4] h(1) by blast
  have b: "\<exists>s'. readlinkat 3 (Some ''/etc/hostname'') (Some ''....'') 4 ?s
                  = (Return (- 1) (Some ''....''), s')
               \<and> errno s' = ENOSYS
               \<and> trace s' = trace ?s @ [Getenv ''OBS_VKCAPTURE_EXE_NAME'', Dlsym ''readlinkat'']"
    using missing_symbol_enosys [of ?s "''/etc/hostname''" "Some ''....''" 4 3] h(2) by blast
  show ?thesis using a b by (simp only: h(3) append_Nil)
qed

subsection \<open>C9: the bound of \<open>out\<close>\<close>

text \<open>
  C9. Whatever the real path and the override are, and whether \<open>snprintf\<close> succeeds or
  fails, the bytes that \<open>build_override\<close> stores in \<open>char out[PATH_MAX]\<close> are at most
  \<open>PATH_MAX\<close>: they are the first \<open>PATH_MAX - 1\<close> bytes of some text, with the rest of
  it dropped, and the NUL. So the synthesized path is shorter than \<open>PATH_MAX\<close>.
\<close>

theorem format_out_within_PATH_MAX:
  "length (fst (format_out g real_path override)) \<le> PATH_MAX
   \<and> (\<exists>fmt. fst (format_out g real_path override) = take (PATH_MAX - 1) fmt @ [NUL])
   \<and> length (synthesized g real_path override) < PATH_MAX"
proof -
  obtain fmt where f: "format_out g real_path override = snprintf g PATH_MAX fmt"
    using format_out_cases by blast
  have "length (fst (format_out g real_path override)) \<le> PATH_MAX"
    by (simp only: f length_snprintf)
  moreover have "\<exists>stored. fst (format_out g real_path override)
                   = take (PATH_MAX - 1) stored @ [NUL]"
    using snprintf_stored [of PATH_MAX g fmt] by (simp add: f PATH_MAX_def)
  moreover have "length (synthesized g real_path override) < PATH_MAX"
    using length_synthesized [of g real_path override] by (simp add: PATH_MAX_def)
  ultimately show ?thesis by blast
qed

theorem format_out_within_PATH_MAX_witness:
  "length (fst (format_out (garbled example_proc) ''/usr/bin/realprog'' (replicate 5000 (CHR ''a''))))
     \<le> 4096
   \<and> length (synthesized (garbled example_proc) ''/usr/bin/realprog'' (replicate 5000 (CHR ''a'')))
     < 4096"
  using format_out_within_PATH_MAX
    [of "garbled example_proc" "''/usr/bin/realprog''" "replicate 5000 (CHR ''a'')"]
  by (simp add: PATH_MAX_def)

subsection \<open>C10: no failure after a successful inner call\<close>

text \<open>
  C10, as amended. On the override path, when the original, called on \<open>real_path\<close>
  with capacity \<open>PATH_MAX - 1\<close>, succeeds (it returns \<open>n\<close> with
  \<open>0 \<le> n \<le> PATH_MAX - 1\<close>, as \<open>readlink\<close> does for that capacity) and leaves \<open>errno\<close>
  at \<open>e\<close>, then for every override, destination and capacity the wrapper returns some
  \<open>r\<close> with \<open>0 \<le> r \<le> bufsiz\<close>; and when the override has at most
  \<open>INT_MAX - PATH_MAX\<close> bytes, so that \<open>snprintf\<close> can format the path, \<open>errno\<close> is
  still \<open>e\<close>. Each wrapper is taken by itself.
\<close>

theorem override_success_never_fails:
  assumes env: "environ s ''OBS_VKCAPTURE_EXE_NAME'' = Some ov" and ne: "ov \<noteq> []"
  shows "((real_readlink_fn s = Some f \<or> (real_readlink_fn s = None \<and> next_readlink s = Some f))
          \<and> f (Some ''/proc/self/exe'') (Some (frame s)) (PATH_MAX - 1) (errno s) = (n, m, e)
          \<and> 0 \<le> n \<and> n \<le> int (PATH_MAX - 1)
          \<longrightarrow> (\<exists>r b s'. readlink (Some ''/proc/self/exe'') buf bufsiz s = (Return r b, s')
                 \<and> 0 \<le> r \<and> r \<le> int bufsiz
                 \<and> (int (length ov) \<le> INT_MAX - int PATH_MAX \<longrightarrow> errno s' = e)))
       \<and> ((real_readlinkat_fn s = Some g
            \<or> (real_readlinkat_fn s = None \<and> next_readlinkat s = Some g))
          \<and> g dirfd (Some ''/proc/self/exe'') (Some (frame s)) (PATH_MAX - 1) (errno s)
              = (n', m', e')
          \<and> 0 \<le> n' \<and> n' \<le> int (PATH_MAX - 1)
          \<longrightarrow> (\<exists>r b s'. readlinkat dirfd (Some ''/proc/self/exe'') buf bufsiz s
                        = (Return r b, s')
                 \<and> 0 \<le> r \<and> r \<le> int bufsiz
                 \<and> (int (length ov) \<le> INT_MAX - int PATH_MAX \<longrightarrow> errno s' = e')))"
proof (intro conjI impI)
  assume "(real_readlink_fn s = Some f \<or> (real_readlink_fn s = None \<and> next_readlink s = Some f))
          \<and> f (Some ''/proc/self/exe'') (Some (frame s)) (PATH_MAX - 1) (errno s) = (n, m, e)
          \<and> 0 \<le> n \<and> n \<le> int (PATH_MAX - 1)"
  then show "\<exists>r b s'. readlink (Some ''/proc/self/exe'') buf bufsiz s = (Return r b, s')
                 \<and> 0 \<le> r \<and> r \<le> int bufsiz
                 \<and> (int (length ov) \<le> INT_MAX - int PATH_MAX \<longrightarrow> errno s' = e)"
    using readlink_override_bounds [OF env ne, of f n m e buf bufsiz] by blast
next
  assume "(real_readlinkat_fn s = Some g
            \<or> (real_readlinkat_fn s = None \<and> next_readlinkat s = Some g))
          \<and> g dirfd (Some ''/proc/self/exe'') (Some (frame s)) (PATH_MAX - 1) (errno s)
              = (n', m', e')
          \<and> 0 \<le> n' \<and> n' \<le> int (PATH_MAX - 1)"
  then show "\<exists>r b s'. readlinkat dirfd (Some ''/proc/self/exe'') buf bufsiz s = (Return r b, s')
                 \<and> 0 \<le> r \<and> r \<le> int bufsiz
                 \<and> (int (length ov) \<le> INT_MAX - int PATH_MAX \<longrightarrow> errno s' = e')"
    using readlinkat_override_bounds [OF env ne, of g dirfd n' m' e' buf bufsiz] by blast
qed

theorem override_success_never_fails_witness:
  "int (length ''fakeprog'') \<le> INT_MAX - int PATH_MAX
   \<and> (\<exists>r b s'. readlink (Some ''/proc/self/exe'') (Some ''....'') 4 example_proc = (Return r b, s')
          \<and> 0 \<le> r \<and> r \<le> 4 \<and> errno s' = 0)
   \<and> (\<exists>r b s'. readlinkat 3 (Some ''/proc/self/exe'') (Some ''....'') 4 example_proc
            = (Return r b, s')
          \<and> 0 \<le> r \<and> r \<le> 4 \<and> errno s' = 0)"
  using override_success_never_fails
    [where s = example_proc and ov = "''fakeprog''"
       and f = example_readlink and g = example_readlinkat
       and n = 17 and m = "''/usr/bin/realprog'' @ CHR ''?'' # replicate 4078 (CHR ''?'')"
       and e = 0
       and n' = 17 and m' = "''/usr/bin/realprog'' @ CHR ''?'' # replicate 4078 (CHR ''?'')"
       and e' = 0 and dirfd = 3 and buf = "Some ''....''" and bufsiz = 4]
    example_inner_call [of 0]
  by (simp add: example_proc_def example_readlinkat_def PATH_MAX_def INT_MAX_def)

text \<open>
  The claim as stated, for every override, fails for an override of \<open>2 ^ 31\<close> bytes:
  the inner call succeeds and leaves \<open>errno\<close> at 0, \<open>snprintf\<close> cannot format more than
  \<open>INT_MAX\<close> bytes, and the wrapper returns with \<open>errno\<close> at \<open>EOVERFLOW\<close>, which is 75.
\<close>

theorem huge_override_counterexample:
  "fst (example_readlink (Some ''/proc/self/exe'') (Some (frame example_proc)) (PATH_MAX - 1) 0)
     = 17
   \<and> snd (snd (example_readlink (Some ''/proc/self/exe'') (Some (frame example_proc))
                 (PATH_MAX - 1) 0)) = 0
   \<and> errno (snd (readlink (Some ''/proc/self/exe'') (Some ''....'') 4
              (example_proc\<lparr>environ :=
                 [''OBS_VKCAPTURE_EXE_NAME'' \<mapsto> replicate (2 ^ 31) (CHR ''a'')]\<rparr>))) = 75"
proof -
  let ?ov = "replicate (2 ^ 31) (CHR ''a'')"
  let ?s = "example_proc\<lparr>environ := [''OBS_VKCAPTURE_EXE_NAME'' \<mapsto> ?ov]\<rparr>"
  have env: "environ ?s ''OBS_VKCAPTURE_EXE_NAME'' = Some ?ov" by simp
  have ne: "?ov \<noteq> []" by simp
  have f: "real_readlink_fn ?s = Some example_readlink
           \<or> (real_readlink_fn ?s = None \<and> next_readlink ?s = Some example_readlink)"
    by (simp add: example_proc_def)
  have inner: "example_readlink (Some ''/proc/self/exe'') (Some (frame ?s)) (PATH_MAX - 1) (errno ?s)
               = (17, ''/usr/bin/realprog'' @ CHR ''?'' # replicate 4078 (CHR ''?''), 0)"
    using example_inner_call [of 0] by (simp add: example_proc_def)
  have ok: "(0::int) \<le> 17" "17 \<le> int (PATH_MAX - 1)" by (simp_all add: PATH_MAX_def)
  have huge: "INT_MAX < int (length ?ov)" by (simp add: INT_MAX_def)
  obtain r b s' where
    "readlink (Some ''/proc/self/exe'') (Some ''....'') 4 ?s = (Return r b, s')"
    "INT_MAX < int (length ?ov) \<longrightarrow> errno s' = EOVERFLOW"
    using readlink_override_bounds [OF env ne f inner ok, of "Some ''....''" 4] by blast
  then have "errno (snd (readlink (Some ''/proc/self/exe'') (Some ''....'') 4 ?s)) = 75"
    using huge by (simp add: EOVERFLOW_def)
  moreover have
    "example_readlink (Some ''/proc/self/exe'') (Some (frame example_proc)) (PATH_MAX - 1) 0
     = (17, ''/usr/bin/realprog'' @ CHR ''?'' # replicate 4078 (CHR ''?''), 0)"
    using example_inner_call [of 0] by (simp add: example_proc_def)
  ultimately show ?thesis by simp
qed

end
